theory Spec2Isabelle
  imports Complex_Main "HOL-Library.Log_Nat"
begin

section \<open>JavaScript numbers\<close>

text \<open>
  The handlers of \<^verbatim>\<open>src/app/lib/actions.ts\<close> compute with JavaScript numbers
  (\<^verbatim>\<open>z.coerce.number()\<close>, \<^verbatim>\<open>amount * 100\<close>). A Number is an IEEE 754
  binary64 value: NaN, an infinity, or a finite value \<open>m * 2 ^ e\<close> with
  \<open>\<bar>m\<bar> < 2 ^ 53\<close> and \<open>- 1074 \<le> e \<le> 971\<close>. Finite values are kept as the real
  number they denote; the sign of zero is not tracked (nothing in the handlers
  observes it).
\<close>

datatype jsnum = NaN | PosInf | NegInf | Finite real

text \<open>Rounding to an integer, ties to the even neighbour.\<close>

definition roundTiesToEven :: "real \<Rightarrow> int" where
  "roundTiesToEven x =
     (let n = \<lfloor>x\<rfloor>; r = x - of_int n
      in if r < 1 / 2 then n else if 1 / 2 < r then n + 1 else if even n then n else n + 1)"

text \<open>\<open>ilog2 a\<close> is \<open>\<lfloor>log 2 a\<rfloor>\<close> for \<open>0 < a\<close>, computed on integers.\<close>

definition ilog2 :: "real \<Rightarrow> int" where
  "ilog2 a = (if 1 \<le> a then bitlen \<lfloor>a\<rfloor> - 1 else - bitlen (\<lceil>1 / a\<rceil> - 1))"

text \<open>
  ``The Number value for \<open>x\<close>'' of ECMAScript: the binary64 value closest to the
  real \<open>x\<close>, ties to the even significand, \<open>2 ^ 1024\<close> and beyond becoming an
  infinity. The significand has 53 bits at exponent \<open>ilog2 \<bar>x\<bar> - 52\<close>, and fewer
  below the smallest normal exponent (subnormals, exponent \<open>- 1074\<close>).
\<close>

definition number_value :: "real \<Rightarrow> jsnum" where
  "number_value x =
     (if x = 0 then Finite 0
      else
        let e = max (ilog2 \<bar>x\<bar> - 52) (- 1074);
            v = of_int (roundTiesToEven (\<bar>x\<bar> / 2 powi e)) * 2 powi e
        in if 2 ^ 1024 \<le> v then (if 0 < x then PosInf else NegInf)
           else Finite (sgn x * v))"

text \<open>The Numbers there are: NaN, the infinities, and the rounded reals.\<close>

abbreviation rounded :: "jsnum \<Rightarrow> bool" where
  "rounded n \<equiv> n = NaN \<or> n = PosInf \<or> n = NegInf \<or> (\<exists>x. n = number_value x)"

text \<open>\<^verbatim>\<open>a * b\<close> on Numbers (ECMAScript Number::multiply).\<close>

fun sign_of :: "jsnum \<Rightarrow> int" where
  "sign_of NaN = 0"
| "sign_of PosInf = 1"
| "sign_of NegInf = - 1"
| "sign_of (Finite x) = (if 0 < x then 1 else if x < 0 then - 1 else 0)"

fun js_times :: "jsnum \<Rightarrow> jsnum \<Rightarrow> jsnum" where
  "js_times NaN b = NaN"
| "js_times a NaN = NaN"
| "js_times (Finite x) (Finite y) = number_value (x * y)"
| "js_times a b =
     (let s = sign_of a * sign_of b
      in if s = 0 then NaN else if 0 < s then PosInf else NegInf)"

text \<open>\<^verbatim>\<open>a < b\<close> and \<^verbatim>\<open>a <= b\<close> on Numbers: every comparison with NaN is false.\<close>

fun js_lt :: "jsnum \<Rightarrow> jsnum \<Rightarrow> bool" where
  "js_lt NaN b = False"
| "js_lt a NaN = False"
| "js_lt (Finite x) (Finite y) = (x < y)"
| "js_lt PosInf b = False"
| "js_lt a PosInf = True"
| "js_lt a NegInf = False"
| "js_lt NegInf b = True"

definition js_le :: "jsnum \<Rightarrow> jsnum \<Rightarrow> bool" where
  "js_le a b = (a \<noteq> NaN \<and> b \<noteq> NaN \<and> \<not> js_lt b a)"

text \<open>A Number that is a whole number (\<^verbatim>\<open>Number.isInteger\<close>).\<close>

fun isInteger :: "jsnum \<Rightarrow> bool" where
  "isInteger (Finite x) = (x = of_int \<lfloor>x\<rfloor>)"
| "isInteger n = False"

section \<open>JavaScript values and form data\<close>

text \<open>
  The values the handlers pass around, and the entries of a \<^verbatim>\<open>FormData\<close>: a
  string or a \<^verbatim>\<open>File\<close>. \<^verbatim>\<open>formData.get(name)\<close> is the entry of that name, or
  \<^verbatim>\<open>null\<close> when the form has none. Strings are text of code units below 256
  (ASCII and Latin-1), one \<^typ>\<open>char\<close> per UTF-16 code unit.
\<close>

datatype jsval = Undefined | Null | Str string | Num jsnum | FileObject

datatype FormDataEntryValue = Text string | File

type_synonym FormData = "string \<Rightarrow> FormDataEntryValue option"

definition form_get :: "FormData \<Rightarrow> string \<Rightarrow> jsval" where
  "form_get formData name =
     (case formData name of
        None \<Rightarrow> Null
      | Some (Text s) \<Rightarrow> Str s
      | Some File \<Rightarrow> FileObject)"

text \<open>An object literal: its properties in order; a missing property reads \<^verbatim>\<open>undefined\<close>.\<close>

type_synonym object = "(string \<times> jsval) list"

definition property :: "object \<Rightarrow> string \<Rightarrow> jsval" where
  "property obj k = (case map_of obj k of None \<Rightarrow> Undefined | Some v \<Rightarrow> v)"

subsection \<open>String to Number\<close>

text \<open>
  The white space \<^verbatim>\<open>Number\<close> strips from both ends of a string: tab, line
  feed, vertical tab, form feed, carriage return, space and no-break space
  (U+00A0). These are all the white space and line terminators of ECMAScript
  among the code units below 256.
\<close>

definition StrWhiteSpaceChar :: "char \<Rightarrow> bool" where
  "StrWhiteSpaceChar c =
     (c \<in> set [CHR 0x09, CHR 0x0A, CHR 0x0B, CHR 0x0C, CHR 0x0D, CHR '' '', CHR 0xA0])"

definition trim :: "string \<Rightarrow> string" where
  "trim s = rev (dropWhile StrWhiteSpaceChar (rev (dropWhile StrWhiteSpaceChar s)))"

definition digit_table :: "(char \<times> nat) list" where
  "digit_table =
     zip ''0123456789abcdef'' [0, 1, 2, 3, 4, 5, 6, 7, 8, 9, 10, 11, 12, 13, 14, 15]
     @ zip ''ABCDEF'' [10, 11, 12, 13, 14, 15]"

definition digit_of :: "nat \<Rightarrow> char \<Rightarrow> nat option" where
  "digit_of base c =
     (case map_of digit_table c of
        None \<Rightarrow> None
      | Some d \<Rightarrow> if d < base then Some d else None)"

fun digits_acc :: "nat \<Rightarrow> nat \<Rightarrow> string \<Rightarrow> nat option" where
  "digits_acc base acc [] = Some acc"
| "digits_acc base acc (c # cs) =
     (case digit_of base c of
        None \<Rightarrow> None
      | Some d \<Rightarrow> digits_acc base (acc * base + d) cs)"

text \<open>The value of a non-empty run of digits; \<open>None\<close> for anything else.\<close>

definition digits_value :: "nat \<Rightarrow> string \<Rightarrow> nat option" where
  "digits_value base s = (if s = [] then None else digits_acc base 0 s)"

definition optional_digits :: "string \<Rightarrow> nat option" where
  "optional_digits s = (if s = [] then Some 0 else digits_value 10 s)"

text \<open>ExponentPart, if any: \<^verbatim>\<open>e\<close> or \<^verbatim>\<open>E\<close>, an optional sign, digits.\<close>

definition exponent_part :: "string \<Rightarrow> int option" where
  "exponent_part s =
     (if s = [] then Some 0
      else
        let t = drop 1 s
        in if take 1 t = ''+'' then map_option int (digits_value 10 (drop 1 t))
           else if take 1 t = ''-'' then map_option (\<lambda>n. - int n) (digits_value 10 (drop 1 t))
           else map_option int (digits_value 10 t))"

text \<open>
  The mathematical value of \<^verbatim>\<open>digits\<close>, \<^verbatim>\<open>digits.digits\<close>, \<^verbatim>\<open>digits.\<close> or
  \<^verbatim>\<open>.digits\<close>, each with an optional exponent.
\<close>

definition decimal_literal :: "string \<Rightarrow> real option" where
  "decimal_literal s =
     (let isExp = (\<lambda>c. c = CHR ''e'' \<or> c = CHR ''E'');
          mant = takeWhile (\<lambda>c. \<not> isExp c) s;
          ip = takeWhile (\<lambda>c. c \<noteq> CHR ''.'') mant;
          fr = dropWhile (\<lambda>c. c \<noteq> CHR ''.'') mant;
          fp = drop 1 fr
      in case exponent_part (dropWhile (\<lambda>c. \<not> isExp c) s) of
           None \<Rightarrow> None
         | Some ex \<Rightarrow>
             if fr = [] then map_option (\<lambda>n. real n * 10 powi ex) (digits_value 10 ip)
             else if ip = [] \<and> fp = [] then None
             else
               (case (optional_digits ip, optional_digits fp) of
                  (Some i, Some f) \<Rightarrow>
                    Some ((real i + real f / 10 ^ length fp) * 10 powi ex)
                | _ \<Rightarrow> None))"

definition nondecimal_literal :: "nat \<Rightarrow> string \<Rightarrow> jsnum" where
  "nondecimal_literal base ds =
     (case digits_value base ds of None \<Rightarrow> NaN | Some n \<Rightarrow> number_value (real n))"

definition signed_literal :: "real \<Rightarrow> string \<Rightarrow> jsnum" where
  "signed_literal sign u =
     (if u = ''Infinity'' then (if 0 < sign then PosInf else NegInf)
      else case decimal_literal u of None \<Rightarrow> NaN | Some mv \<Rightarrow> number_value (sign * mv))"

text \<open>ECMAScript StringToNumber.\<close>

definition StringToNumber :: "string \<Rightarrow> jsnum" where
  "StringToNumber str =
     (let s = trim str
      in if s = [] then Finite 0
         else if take 2 s = ''0x'' \<or> take 2 s = ''0X'' then nondecimal_literal 16 (drop 2 s)
         else if take 2 s = ''0o'' \<or> take 2 s = ''0O'' then nondecimal_literal 8 (drop 2 s)
         else if take 2 s = ''0b'' \<or> take 2 s = ''0B'' then nondecimal_literal 2 (drop 2 s)
         else if take 1 s = ''+'' then signed_literal 1 (drop 1 s)
         else if take 1 s = ''-'' then signed_literal (- 1) (drop 1 s)
         else signed_literal 1 s)"

text \<open>\<^verbatim>\<open>Number(v)\<close>: a \<^verbatim>\<open>File\<close> is an object whose string form is no number.\<close>

fun Number :: "jsval \<Rightarrow> jsnum" where
  "Number Undefined = NaN"
| "Number Null = Finite 0"
| "Number (Str s) = StringToNumber s"
| "Number (Num n) = n"
| "Number FileObject = NaN"

text \<open>\<^verbatim>\<open>a === b\<close>; two \<^verbatim>\<open>File\<close> entries of a form are distinct objects.\<close>

fun strict_equals :: "jsval \<Rightarrow> jsval \<Rightarrow> bool" where
  "strict_equals (Str a) (Str b) = (a = b)"
| "strict_equals (Num a) (Num b) = (a \<noteq> NaN \<and> a = b)"
| "strict_equals Undefined Undefined = True"
| "strict_equals Null Null = True"
| "strict_equals a b = False"

text \<open>\<^verbatim>\<open>s.startsWith(p)\<close>.\<close>

definition startsWith :: "string \<Rightarrow> string \<Rightarrow> bool" where
  "startsWith s p = (take (length p) s = p)"

section \<open>The schema validator\<close>

text \<open>
  The schemas of \<^verbatim>\<open>actions.ts\<close> are built with the zod library (version 3, whose
  \<^verbatim>\<open>invalid_type_error\<close> option the source uses). A schema is modelled as data,
  the way the source writes it, and \<open>safeParse\<close> interprets it as zod does:
  every field of an object is parsed, each failed check adds an issue (a path
  and a message) and the checks of a value all run, a value of the wrong type
  aborts its field, an object with an aborted field is aborted, and a
  refinement runs unless the schema under it was aborted. The pattern behind
  \<^verbatim>\<open>.email()\<close> is a parameter.

  A string schema carries its \<^verbatim>\<open>invalid_type_error\<close>, if any, and its checks;
  a number schema whether it coerces, and its checks; an enum its values and
  its \<^verbatim>\<open>invalid_type_error\<close>. Every check carries its message.
\<close>

type_synonym issue = "string list \<times> string"

datatype string_check =
    Min nat string
  | Max nat string
  | Regex "string \<Rightarrow> bool" string
  | Email string

datatype number_check = Gt jsnum string

datatype zod_type =
    ZodString "string option" "string_check list"
  | ZodNumber bool "number_check list"
  | ZodEnum "string list" "string option"

type_synonym shape = "(string \<times> zod_type) list"

datatype zod_schema =
    ZodObject shape
  | ZodEffects zod_schema "object \<Rightarrow> bool" string "string list"

text \<open>\<^verbatim>\<open>schema.omit({k: true, ...})\<close> and \<^verbatim>\<open>schema.refine(check, {message, path})\<close>.\<close>

definition omit :: "string list \<Rightarrow> shape \<Rightarrow> shape" where
  "omit ks sh = filter (\<lambda>(k, t). k \<notin> set ks) sh"

definition refine :: "(object \<Rightarrow> bool) \<Rightarrow> string \<Rightarrow> string list \<Rightarrow> zod_schema \<Rightarrow> zod_schema" where
  "refine check msg path schema = ZodEffects schema check msg path"

fun getParsedType :: "jsval \<Rightarrow> string" where
  "getParsedType Undefined = ''undefined''"
| "getParsedType Null = ''null''"
| "getParsedType (Str s) = ''string''"
| "getParsedType (Num n) = (if n = NaN then ''nan'' else ''number'')"
| "getParsedType FileObject = ''object''"

text \<open>
  The message of an \<^verbatim>\<open>invalid_type\<close> issue: \<^verbatim>\<open>Required\<close> for \<^verbatim>\<open>undefined\<close>,
  else the schema's \<^verbatim>\<open>invalid_type_error\<close> when it has one, else zod's default.
\<close>

definition invalid_type_message :: "string option \<Rightarrow> string \<Rightarrow> jsval \<Rightarrow> string" where
  "invalid_type_message custom expected v =
     (if v = Undefined then ''Required''
      else case custom of
             Some m \<Rightarrow> m
           | None \<Rightarrow> ''Expected '' @ expected @ '', received '' @ getParsedType v)"

fun joinValues :: "string list \<Rightarrow> string" where
  "joinValues [] = []"
| "joinValues [v] = [CHR 0x27] @ v @ [CHR 0x27]"
| "joinValues (v # vs) = [CHR 0x27] @ v @ [CHR 0x27] @ '' | '' @ joinValues vs"

definition invalid_enum_message :: "string list \<Rightarrow> string \<Rightarrow> string" where
  "invalid_enum_message values received =
     ''Invalid enum value. Expected '' @ joinValues values @ '', received ''
       @ [CHR 0x27] @ received @ [CHR 0x27]"

text \<open>The message of a check the value fails, if it fails.\<close>

fun string_check_issue :: "(string \<Rightarrow> bool) \<Rightarrow> string \<Rightarrow> string_check \<Rightarrow> string option" where
  "string_check_issue emailRegex s (Min n m) = (if length s < n then Some m else None)"
| "string_check_issue emailRegex s (Max n m) = (if n < length s then Some m else None)"
| "string_check_issue emailRegex s (Regex r m) = (if r s then None else Some m)"
| "string_check_issue emailRegex s (Email m) = (if emailRegex s then None else Some m)"

fun number_check_issue :: "jsnum \<Rightarrow> number_check \<Rightarrow> string option" where
  "number_check_issue n (Gt bound m) = (if js_le n bound then Some m else None)"

text \<open>
  Parsing one value against a field schema, at a path: the issues, and the
  value unless the field is aborted.
\<close>

fun parse_type :: "(string \<Rightarrow> bool) \<Rightarrow> zod_type \<Rightarrow> string list \<Rightarrow> jsval \<Rightarrow> issue list \<times> jsval option" where
  "parse_type emailRegex (ZodString custom checks) path v =
     (case v of
        Str s \<Rightarrow>
          (map (Pair path) (List.map_filter (string_check_issue emailRegex s) checks), Some v)
      | _ \<Rightarrow> ([(path, invalid_type_message custom ''string'' v)], None))"
| "parse_type emailRegex (ZodNumber coerce checks) path v =
     (let d = (if coerce then Num (Number v) else v)
      in case d of
           Num n \<Rightarrow>
             if n = NaN then ([(path, invalid_type_message None ''number'' d)], None)
             else (map (Pair path) (List.map_filter (number_check_issue n) checks), Some d)
         | _ \<Rightarrow> ([(path, invalid_type_message None ''number'' d)], None))"
| "parse_type emailRegex (ZodEnum values custom) path v =
     (case v of
        Str s \<Rightarrow>
          if s \<in> set values then ([], Some v)
          else ([(path, invalid_enum_message values s)], None)
      | _ \<Rightarrow> ([(path, invalid_type_message custom (joinValues values) v)], None))"

text \<open>An object: every key of the shape is parsed, in order.\<close>

fun parse_shape :: "(string \<Rightarrow> bool) \<Rightarrow> shape \<Rightarrow> object \<Rightarrow> issue list \<times> object option" where
  "parse_shape emailRegex [] input = ([], Some [])"
| "parse_shape emailRegex ((k, t) # rest) input =
     (let (i1, v) = parse_type emailRegex t [k] (property input k);
          (i2, vs) = parse_shape emailRegex rest input
      in (i1 @ i2,
          case (v, vs) of
            (Some x, Some xs) \<Rightarrow> Some ((k, x) # xs)
          | _ \<Rightarrow> None))"

fun parse_schema :: "(string \<Rightarrow> bool) \<Rightarrow> zod_schema \<Rightarrow> object \<Rightarrow> issue list \<times> object option" where
  "parse_schema emailRegex (ZodObject sh) input = parse_shape emailRegex sh input"
| "parse_schema emailRegex (ZodEffects inner check msg path) input =
     (case parse_schema emailRegex inner input of
        (issues, None) \<Rightarrow> (issues, None)
      | (issues, Some v) \<Rightarrow>
          if check v then (issues, Some v) else (issues @ [(path, msg)], Some v))"

text \<open>\<^verbatim>\<open>schema.safeParse(input)\<close>: the issues (\<open>Inl\<close>) or the parsed data (\<open>Inr\<close>).\<close>

definition safeParse :: "(string \<Rightarrow> bool) \<Rightarrow> zod_schema \<Rightarrow> object \<Rightarrow> issue list + object" where
  "safeParse emailRegex schema input =
     (case parse_schema emailRegex schema input of
        (issues, None) \<Rightarrow> Inl issues
      | (issues, Some v) \<Rightarrow> if issues = [] then Inr v else Inl issues)"

text \<open>\<^verbatim>\<open>error.flatten().fieldErrors\<close>: the messages by the first key of their path.\<close>

fun fieldErrors :: "issue list \<Rightarrow> (string \<rightharpoonup> string list)" where
  "fieldErrors [] = Map.empty"
| "fieldErrors ((path, msg) # rest) =
     (case path of
        [] \<Rightarrow> fieldErrors rest
      | k # ks \<Rightarrow>
          (fieldErrors rest)(k \<mapsto> msg # (case fieldErrors rest k of None \<Rightarrow> [] | Some ms \<Rightarrow> ms)))"

text \<open>\<^verbatim>\<open>schema.safeParse(v)\<close> for the schema of a single value.\<close>

definition safeParse_value :: "(string \<Rightarrow> bool) \<Rightarrow> zod_type \<Rightarrow> jsval \<Rightarrow> issue list + jsval" where
  "safeParse_value emailRegex t v =
     (case parse_type emailRegex t [] v of
        (issues, None) \<Rightarrow> Inl issues
      | (issues, Some d) \<Rightarrow> if issues = [] then Inr d else Inl issues)"

text \<open>
  The messages of the violations of one value against its field schema, taken
  on its own; and the entry of \<^verbatim>\<open>fieldErrors\<close> for a field with these messages
  (none when there is no message).
\<close>

definition violations :: "(string \<Rightarrow> bool) \<Rightarrow> zod_type \<Rightarrow> jsval \<Rightarrow> string list" where
  "violations emailRegex t v = map snd (fst (parse_type emailRegex t [] v))"

definition reported :: "string list \<Rightarrow> string list option" where
  "reported ms = (if ms = [] then None else Some ms)"

text \<open>The messages of the issues whose path starts at a key.\<close>

definition messages_at :: "string \<Rightarrow> issue list \<Rightarrow> string list" where
  "messages_at k issues = map snd (filter (\<lambda>(p, m). take 1 p = [k]) issues)"

section \<open>What the handlers run against\<close>

text \<open>
  The database, the clock, the password hashing library and the pattern of
  \<^verbatim>\<open>.email()\<close> are outside the repository; \<^verbatim>\<open>signInSchema\<close> is imported from
  a file of the repository that is not among its sources. They are the fields
  of an environment the handlers take. A statement is the text of a \<^verbatim>\<open>sql\<close>
  template with its interpolated values; running one yields rows, or throws an
  error, given by its string form (\<open>Inl\<close>).
\<close>

record User =
  user_id :: string
  user_name :: string
  user_email :: string
  user_password :: string

datatype statement =
    INSERT_INTO_invoices jsval jsval jsval string
  | UPDATE_invoices jsval jsval jsval string
  | DELETE_FROM_invoices string
  | INSERT_INTO_users jsval jsval string
  | SELECT_FROM_users string

datatype js_error = AuthError string | NEXT_REDIRECT string | Error string

datatype 'a completion = Return 'a | Throw js_error

datatype effect = Sql statement | RevalidatePath string

text \<open>The statements a run issued, and the paths it invalidated, in order.\<close>

fun statements :: "effect list \<Rightarrow> statement list" where
  "statements [] = []"
| "statements (Sql stmt # es) = stmt # statements es"
| "statements (RevalidatePath p # es) = statements es"

fun revalidated :: "effect list \<Rightarrow> string list" where
  "revalidated [] = []"
| "revalidated (Sql stmt # es) = revalidated es"
| "revalidated (RevalidatePath p # es) = p # revalidated es"

record env =
  emailRegex :: "string \<Rightarrow> bool"
  sql :: "statement \<Rightarrow> string + User list"
  today :: string
  bcrypt_hash :: "jsval \<Rightarrow> string completion"
  bcrypt_compare :: "string \<Rightarrow> string \<Rightarrow> bool"
  signInSchema :: "object \<Rightarrow> (string \<times> string) option"

section \<open>\<^verbatim>\<open>src/auth.config.ts\<close>\<close>

definition getUser :: "env \<Rightarrow> string \<Rightarrow> User option completion" where
  "getUser rt email =
     (case sql rt (SELECT_FROM_users email) of
        Inr user \<Rightarrow> Return (case user of [] \<Rightarrow> None | u # us \<Rightarrow> Some u)
      | Inl error \<Rightarrow> Return None)"

definition authorize :: "env \<Rightarrow> object \<Rightarrow> User option completion" where
  "authorize rt credentials =
     (case signInSchema rt credentials of
        Some (email, password) \<Rightarrow>
          (case getUser rt email of
             Throw error \<Rightarrow> Throw error
           | Return None \<Rightarrow> Return None
           | Return (Some user) \<Rightarrow>
               if bcrypt_compare rt password (user_password user) then Return (Some user)
               else Return None)
      | None \<Rightarrow> Return None)"

record Session =
  user :: "User option"

record URL =
  origin :: string
  pathname :: string

text \<open>\<open>authorized\<close> returns a boolean or a redirect response.\<close>

datatype authorized_result = Bool bool | Response_redirect URL

definition authorized :: "Session option \<Rightarrow> URL \<Rightarrow> authorized_result" where
  "authorized auth nextUrl =
     (let isLoggedIn = (case auth of None \<Rightarrow> False | Some session \<Rightarrow> user session \<noteq> None);
          isOnDashboard = startsWith (pathname nextUrl) ''/dashboard''
      in if isOnDashboard then (if isLoggedIn then Bool True else Bool False)
         else if isLoggedIn then Response_redirect (nextUrl\<lparr>pathname := ''/dashboard''\<rparr>)
         else Bool True)"

text \<open>
  The identity library's \<^verbatim>\<open>signIn\<close> for the credentials provider, as far as
  the handlers depend on it: it hands the submitted credentials to
  \<open>authorize\<close>, throws \<^verbatim>\<open>CredentialsSignin\<close> when that yields no user, wraps
  what \<open>authorize\<close> throws, and otherwise goes on as the library does
  (\<open>proceed\<close>: a redirect or a failure of its own).
\<close>

definition credentials_signIn ::
  "env \<Rightarrow> (FormData \<Rightarrow> object) \<Rightarrow> (User \<Rightarrow> unit completion) \<Rightarrow> string \<Rightarrow> FormData \<Rightarrow> unit completion" where
  "credentials_signIn rt credentials_of proceed provider formData =
     (case authorize rt (credentials_of formData) of
        Throw error \<Rightarrow>
          (case error of
             AuthError type \<Rightarrow> Throw error
           | _ \<Rightarrow> Throw (AuthError ''CallbackRouteError''))
      | Return None \<Rightarrow> Throw (AuthError ''CredentialsSignin'')
      | Return (Some u) \<Rightarrow> proceed u)"

section \<open>\<^verbatim>\<open>src/app/lib/actions.ts\<close>\<close>

text \<open>
  \<open>FormSchema\<close> is the shape given to \<^verbatim>\<open>z.object\<close>. A handler yields how it
  completes and the effects it performed, in order; \<^verbatim>\<open>redirect(path)\<close> completes
  a handler by throwing \<^verbatim>\<open>NEXT_REDIRECT\<close>.
\<close>

record authenticateState =
  message :: "string option"
  email :: "jsval option"

record State =
  errors :: "(string \<rightharpoonup> string list) option"
  message :: "string option"

definition FormSchema :: shape where
  "FormSchema =
     [(''id'', ZodString None []),
      (''customerId'', ZodString (Some ''Please select a customer.'') []),
      (''amount'', ZodNumber True [Gt (Finite 0) ''Please enter an amount greater than $0.'']),
      (''status'', ZodEnum [''pending'', ''paid''] (Some ''Please select an invoice status.'')),
      (''date'', ZodString None [])]"

definition CreateInvoice :: zod_schema where
  "CreateInvoice = ZodObject (omit [''id'', ''date''] FormSchema)"

definition UpdateInvoice :: zod_schema where
  "UpdateInvoice = ZodObject (omit [''id'', ''date''] FormSchema)"

definition createInvoice :: "env \<Rightarrow> State \<Rightarrow> FormData \<Rightarrow> State completion \<times> effect list" where
  "createInvoice rt prevState formData =
     (case safeParse (emailRegex rt) CreateInvoice
             [(''customerId'', form_get formData ''customerId''),
              (''amount'', form_get formData ''amount''),
              (''status'', form_get formData ''status'')] of
        Inl issues \<Rightarrow>
          (Return \<lparr>errors = Some (fieldErrors issues),
                   message = Some ''Missing Fields. Failed to Create Invoice.''\<rparr>, [])
      | Inr data \<Rightarrow>
          let customerId = property data ''customerId'';
              amount = property data ''amount'';
              status = property data ''status'';
              amountInCents = Num (js_times (Number amount) (Finite 100));
              date = today rt;
              stmt = INSERT_INTO_invoices customerId amountInCents status date
          in case sql rt stmt of
               Inl error \<Rightarrow>
                 (Return \<lparr>errors = None,
                          message = Some (''Failed to Create Invoice. Database error: '' @ error)\<rparr>,
                  [Sql stmt])
             | Inr rows \<Rightarrow>
                 (Throw (NEXT_REDIRECT ''/dashboard/invoices''),
                  [Sql stmt, RevalidatePath ''/dashboard/invoices'']))"

definition updateInvoice :: "env \<Rightarrow> string \<Rightarrow> State \<Rightarrow> FormData \<Rightarrow> State completion \<times> effect list" where
  "updateInvoice rt invoice_id prevState formData =
     (case safeParse (emailRegex rt) UpdateInvoice
             [(''customerId'', form_get formData ''customerId''),
              (''amount'', form_get formData ''amount''),
              (''status'', form_get formData ''status'')] of
        Inl issues \<Rightarrow>
          (Return \<lparr>errors = Some (fieldErrors issues),
                   message = Some ''Missing Fields. Failed to Update Invoice.''\<rparr>, [])
      | Inr data \<Rightarrow>
          let customerId = property data ''customerId'';
              amount = property data ''amount'';
              status = property data ''status'';
              amountInCents = Num (js_times (Number amount) (Finite 100));
              stmt = UPDATE_invoices customerId amountInCents status invoice_id
          in case sql rt stmt of
               Inl error \<Rightarrow>
                 (Return \<lparr>errors = None,
                          message = Some (''Failed to Update Invoice. Database error: '' @ error)\<rparr>,
                  [Sql stmt])
             | Inr rows \<Rightarrow>
                 (Throw (NEXT_REDIRECT ''/dashboard/invoices''),
                  [Sql stmt, RevalidatePath ''/dashboard/invoices'']))"

text \<open>\<open>deleteInvoice\<close> returns the failure message, or nothing (\<^verbatim>\<open>undefined\<close>).\<close>

definition deleteInvoice :: "env \<Rightarrow> string \<Rightarrow> string option completion \<times> effect list" where
  "deleteInvoice rt invoice_id =
     (let stmt = DELETE_FROM_invoices invoice_id
      in case sql rt stmt of
           Inl error \<Rightarrow>
             (Return (Some (''Failed to Delete Invoice. Database error: '' @ error)), [Sql stmt])
         | Inr rows \<Rightarrow> (Return None, [Sql stmt, RevalidatePath ''/dashboard/invoices'']))"

text \<open>
  \<open>authenticate\<close> takes \<^verbatim>\<open>signIn\<close> of the identity library as it is imported:
  a call that returns or throws.
\<close>

definition authenticate ::
  "env \<Rightarrow> (string \<Rightarrow> FormData \<Rightarrow> unit completion) \<Rightarrow> authenticateState option \<Rightarrow> FormData
     \<Rightarrow> authenticateState option completion" where
  "authenticate rt signIn prevState formData =
     (case signIn ''credentials'' formData of
        Return u \<Rightarrow> Return None
      | Throw error \<Rightarrow>
          (case safeParse_value (emailRegex rt) (ZodString None [Email ''Invalid email''])
                  (form_get formData ''email'') of
             Inl issues \<Rightarrow>
               Return (Some \<lparr>authenticateState.message = Some ''Invalid email'',
                              authenticateState.email = None\<rparr>)
           | Inr userEmail \<Rightarrow>
               (case error of
                  AuthError type \<Rightarrow>
                    if type = ''CredentialsSignin''
                    then Return (Some \<lparr>authenticateState.message = Some ''Invalid credentials'',
                                        authenticateState.email = Some userEmail\<rparr>)
                    else Return (Some \<lparr>authenticateState.message =
                                          Some ''Valid credentials, but failed to authenticate'',
                                        authenticateState.email = Some userEmail\<rparr>)
                | _ \<Rightarrow> Throw error)))"

text \<open>
  The four character classes of the password rules, as \<^verbatim>\<open>regex.test\<close>. The
  source writes the same five rules for \<^verbatim>\<open>password\<close> and for \<^verbatim>\<open>confirmPassword\<close>.
\<close>

definition upper_case :: string where "upper_case = ''ABCDEFGHIJKLMNOPQRSTUVWXYZ''"
definition lower_case :: string where "lower_case = ''abcdefghijklmnopqrstuvwxyz''"
definition digits :: string where "digits = ''0123456789''"

definition has_upper :: "string \<Rightarrow> bool" where
  "has_upper s = list_ex (\<lambda>c. c \<in> set upper_case) s"

definition has_lower :: "string \<Rightarrow> bool" where
  "has_lower s = list_ex (\<lambda>c. c \<in> set lower_case) s"

definition has_digit :: "string \<Rightarrow> bool" where
  "has_digit s = list_ex (\<lambda>c. c \<in> set digits) s"

definition has_special :: "string \<Rightarrow> bool" where
  "has_special s = list_ex (\<lambda>c. c \<notin> set (lower_case @ upper_case @ digits)) s"

definition password_rules :: "string_check list" where
  "password_rules =
     [Min 8 ''Password must be at least 8 characters long'',
      Regex has_upper ''Password must contain at least one uppercase letter'',
      Regex has_lower ''Password must contain at least one lowercase letter'',
      Regex has_digit ''Password must contain at least one number'',
      Regex has_special ''Password must contain at least one special character'']"

definition credShape :: shape where
  "credShape =
     [(''username'', ZodString None
         [Min 3 ''Username must be at least 3 characters long'',
          Max 20 ''Username cannot exceed 20 characters'']),
      (''email'', ZodString None [Email ''Invalid email address'']),
      (''password'', ZodString None password_rules),
      (''confirmPassword'', ZodString None password_rules)]"

definition credSchema :: zod_schema where
  "credSchema =
     refine (\<lambda>data. strict_equals (property data ''password'') (property data ''confirmPassword''))
       ''Passwords do not match'' [''confirmPassword'']
       (ZodObject credShape)"

definition addUser :: "env \<Rightarrow> State \<Rightarrow> FormData \<Rightarrow> State completion \<times> effect list" where
  "addUser rt prevState formData =
     (case safeParse (emailRegex rt) credSchema
             [(''username'', form_get formData ''username''),
              (''email'', form_get formData ''email''),
              (''password'', form_get formData ''password''),
              (''confirmPassword'', form_get formData ''confirmPassword'')] of
        Inl issues \<Rightarrow> (Return \<lparr>errors = Some (fieldErrors issues), message = None\<rparr>, [])
      | Inr userInput \<Rightarrow>
          (case bcrypt_hash rt (property userInput ''password'') of
             Throw error \<Rightarrow> (Throw error, [])
           | Return hashedPassword \<Rightarrow>
               let stmt = INSERT_INTO_users (property userInput ''username'')
                            (property userInput ''email'') hashedPassword
               in case sql rt stmt of
                    Inl error \<Rightarrow>
                      (Return \<lparr>errors = None,
                               message = Some (''Failed to insert new user. Database error: '' @ error)\<rparr>,
                       [Sql stmt])
                  | Inr rows \<Rightarrow> (Throw (NEXT_REDIRECT ''/login''), [Sql stmt])))"

section \<open>Observations and sample runs\<close>

text \<open>The object both invoice handlers give to \<^verbatim>\<open>safeParse\<close>.\<close>

abbreviation invoice_fields :: "FormData \<Rightarrow> object" where
  "invoice_fields formData \<equiv>
     [(''customerId'', form_get formData ''customerId''),
      (''amount'', form_get formData ''amount''),
      (''status'', form_get formData ''status'')]"

text \<open>The field errors a handler returns, if it returns any.\<close>

definition returned_errors :: "State completion \<Rightarrow> (string \<rightharpoonup> string list) option" where
  "returned_errors c = (case c of Return st \<Rightarrow> errors st | Throw error \<Rightarrow> None)"

text \<open>The messages a handler returns for one field, if any.\<close>

definition field_error :: "State completion \<Rightarrow> string \<Rightarrow> string list option" where
  "field_error c k = (case returned_errors c of None \<Rightarrow> None | Some m \<Rightarrow> m k)"

text \<open>The object \<open>addUser\<close> gives to \<^verbatim>\<open>safeParse\<close>.\<close>

abbreviation cred_fields :: "FormData \<Rightarrow> object" where
  "cred_fields formData \<equiv>
     [(''username'', form_get formData ''username''),
      (''email'', form_get formData ''email''),
      (''password'', form_get formData ''password''),
      (''confirmPassword'', form_get formData ''confirmPassword'')]"

text \<open>
  The mismatch issue of a registration form: the refinement of \<open>credSchema\<close>
  runs when every entry of the form is text, and fails when the two passwords
  differ.
\<close>

definition is_text :: "FormData \<Rightarrow> string \<Rightarrow> bool" where
  "is_text formData k = (case formData k of Some (Text s) \<Rightarrow> True | _ \<Rightarrow> False)"

definition mismatch :: "FormData \<Rightarrow> issue list" where
  "mismatch formData =
     (if list_all (is_text formData) (map fst credShape)
         \<and> formData ''password'' \<noteq> formData ''confirmPassword''
      then [([''confirmPassword''], ''Passwords do not match'')] else [])"

text \<open>A password that satisfies the length rule and the four character classes.\<close>

definition satisfies_password_rules :: "string \<Rightarrow> bool" where
  "satisfies_password_rules s =
     (8 \<le> length s \<and> has_upper s \<and> has_lower s \<and> has_digit s \<and> has_special s)"

text \<open>A run reached storage success when the database accepted a statement of it.\<close>

definition storage_succeeded :: "env \<Rightarrow> effect list \<Rightarrow> bool" where
  "storage_succeeded rt effects =
     list_ex (\<lambda>stmt. case sql rt stmt of Inl error \<Rightarrow> False | Inr rows \<Rightarrow> True)
       (statements effects)"

text \<open>
  An environment for sample runs: a database that accepts every statement and
  holds no user, and one that rejects every statement. Its address pattern
  asks for an \<^verbatim>\<open>@\<close> only, and its sign-in schema reads the two entries when
  they are text.
\<close>

definition sample_env :: env where
  "sample_env =
     \<lparr>emailRegex = (\<lambda>s. CHR ''@'' \<in> set s),
      sql = (\<lambda>stmt. Inr []),
      today = ''2024-01-01'',
      bcrypt_hash = (\<lambda>v. Return ''$2a$10$hash''),
      bcrypt_compare = (\<lambda>p h. False),
      signInSchema =
        (\<lambda>credentials.
           case (property credentials ''email'', property credentials ''password'') of
             (Str e, Str p) \<Rightarrow> Some (e, p)
           | _ \<Rightarrow> None)\<rparr>"

definition failing_env :: env where
  "failing_env = sample_env\<lparr>sql := (\<lambda>stmt. Inl ''Error: connection refused'')\<rparr>"

definition no_state :: State where
  "no_state = \<lparr>errors = None, message = None\<rparr>"

definition form_of :: "(string \<times> string) list \<Rightarrow> FormData" where
  "form_of entries = map_option Text \<circ> map_of entries"

definition sample_credentials :: "FormData \<Rightarrow> object" where
  "sample_credentials formData =
     [(''email'', form_get formData ''email''), (''password'', form_get formData ''password'')]"

section \<open>Properties\<close>

subsection \<open>Numbers\<close>

text \<open>
  \<open>ilog2\<close> is the binary exponent, a rounded integer is within one half of
  the real, and a positive Number is at least the smallest subnormal; so a
  positive Number times 100 is positive.
\<close>

lemma bitlen_numeral_simps:
  "bitlen 1 = 1"
  "bitlen (numeral (Num.Bit0 n)) = bitlen (numeral n) + 1"
  "bitlen (numeral (Num.Bit1 n)) = bitlen (numeral n) + 1"
  "bitlen (numeral Num.One) = 1"
  by (subst compute_bitlen, simp)+

lemma powi_numeral_simps:
  "(x::real) powi (numeral n) = x ^ numeral n"
  "(x::real) powi (- numeral n) = 1 / x ^ numeral n"
  "(x::real) powi 0 = 1"
  by (simp_all add: power_int_def field_simps)

lemma powi_minus_nonneg:
  "0 \<le> b \<Longrightarrow> (2::real) powi (- b) = 1 / 2 ^ nat b"
  by (cases "b = 0") (simp_all add: power_int_def field_simps)

lemma powi_nonneg:
  "0 \<le> b \<Longrightarrow> (2::real) powi b = 2 ^ nat b"
  by (simp add: power_int_def)

lemma ilog2_lower:
  assumes "0 < a"
  shows "2 powi (ilog2 a) \<le> a"
proof (cases "1 \<le> a")
  case True
  then have pos: "0 < \<lfloor>a\<rfloor>" by linarith
  from bitlen_bounds[OF pos] have "2 ^ nat (bitlen \<lfloor>a\<rfloor> - 1) \<le> \<lfloor>a\<rfloor>" by simp
  then have "(2::real) ^ nat (bitlen \<lfloor>a\<rfloor> - 1) \<le> of_int \<lfloor>a\<rfloor>"
    by (metis of_int_le_iff of_int_numeral of_int_power)
  also have "\<dots> \<le> a" by simp
  finally have "(2::real) ^ nat (bitlen \<lfloor>a\<rfloor> - 1) \<le> a" .
  moreover from pos have "1 \<le> bitlen \<lfloor>a\<rfloor>"
    using bitlen_eq_zero_iff[of "\<lfloor>a\<rfloor>"] bitlen_nonneg[of "\<lfloor>a\<rfloor>"] by linarith
  ultimately show ?thesis
    using True by (simp add: ilog2_def power_int_def)
next
  case False
  define n where "n = \<lceil>1 / a\<rceil>"
  from False assms have "1 < 1 / a" by simp
  then have n2: "2 \<le> n" unfolding n_def by linarith
  then have pos: "0 < n - 1" by simp
  from bitlen_bounds[OF pos] have "n - 1 < 2 ^ nat (bitlen (n - 1))" by simp
  then have "n \<le> 2 ^ nat (bitlen (n - 1))" by simp
  then have "(of_int n :: real) \<le> 2 ^ nat (bitlen (n - 1))"
    by (metis of_int_le_iff of_int_numeral of_int_power)
  moreover have "1 / a \<le> of_int n" unfolding n_def by simp
  ultimately have le: "1 / a \<le> 2 ^ nat (bitlen (n - 1))" by linarith
  have "1 / 2 ^ nat (bitlen (n - 1)) \<le> a"
  proof -
    from le assms have "1 \<le> 2 ^ nat (bitlen (n - 1)) * a"
      by (simp add: field_simps)
    then show ?thesis by (simp add: field_simps)
  qed
  moreover have "0 \<le> bitlen (n - 1)" by (rule bitlen_nonneg)
  ultimately show ?thesis
    using False by (simp add: ilog2_def powi_minus_nonneg n_def)
qed

lemma ilog2_upper:
  assumes "0 < a"
  shows "a < 2 powi (ilog2 a + 1)"
proof (cases "1 \<le> a")
  case True
  then have pos: "0 < \<lfloor>a\<rfloor>" by linarith
  from bitlen_bounds[OF pos] have "\<lfloor>a\<rfloor> < 2 ^ nat (bitlen \<lfloor>a\<rfloor>)" by simp
  then have "\<lfloor>a\<rfloor> + 1 \<le> 2 ^ nat (bitlen \<lfloor>a\<rfloor>)" by simp
  then have "(of_int (\<lfloor>a\<rfloor> + 1) :: real) \<le> 2 ^ nat (bitlen \<lfloor>a\<rfloor>)"
    by (metis of_int_le_iff of_int_numeral of_int_power)
  moreover have "a < of_int (\<lfloor>a\<rfloor> + 1)" by linarith
  ultimately have "a < 2 ^ nat (bitlen \<lfloor>a\<rfloor>)" by linarith
  moreover have "0 \<le> bitlen \<lfloor>a\<rfloor>" by (rule bitlen_nonneg)
  ultimately show ?thesis using True by (simp add: ilog2_def power_int_def)
next
  case False
  define n where "n = \<lceil>1 / a\<rceil>"
  define b where "b = bitlen (n - 1)"
  from False assms have "1 < 1 / a" by simp
  then have n2: "2 \<le> n" unfolding n_def by linarith
  then have pos: "0 < n - 1" by simp
  from pos have b1: "1 \<le> b"
    using bitlen_eq_zero_iff[of "n - 1"] bitlen_nonneg[of "n - 1"] unfolding b_def by linarith
  from bitlen_bounds[OF pos] have "2 ^ nat (b - 1) \<le> n - 1" unfolding b_def by simp
  then have "(2::real) ^ nat (b - 1) \<le> of_int (n - 1)"
    by (metis of_int_le_iff of_int_numeral of_int_power)
  moreover have "of_int (n - 1) < 1 / a" unfolding n_def by linarith
  ultimately have lt: "2 ^ nat (b - 1) < 1 / a" by linarith
  have "a < 1 / 2 ^ nat (b - 1)"
  proof -
    from lt assms have "2 ^ nat (b - 1) * a < 1" by (simp add: field_simps)
    then show ?thesis by (simp add: field_simps)
  qed
  moreover have "ilog2 a + 1 = - (b - 1)" using False by (simp add: ilog2_def n_def b_def)
  moreover have "(2::real) powi (- (b - 1)) = 1 / 2 ^ nat (b - 1)"
    using b1 by (intro powi_minus_nonneg) simp
  ultimately show ?thesis by simp
qed


lemma roundTiesToEven_ge_floor: "\<lfloor>x\<rfloor> \<le> roundTiesToEven x"
  by (simp add: roundTiesToEven_def Let_def)

lemma roundTiesToEven_ge_one: "1 \<le> x \<Longrightarrow> 1 \<le> roundTiesToEven x"
proof -
  assume "1 \<le> x"
  then have "1 \<le> \<lfloor>x\<rfloor>" by linarith
  with roundTiesToEven_ge_floor[of x] show ?thesis by linarith
qed

lemma roundTiesToEven_nonneg: "0 \<le> x \<Longrightarrow> 0 \<le> roundTiesToEven x"
proof -
  assume "0 \<le> x"
  then have "0 \<le> \<lfloor>x\<rfloor>" by linarith
  with roundTiesToEven_ge_floor[of x] show ?thesis by linarith
qed

lemma roundTiesToEven_close: "\<bar>of_int (roundTiesToEven x) - x\<bar> \<le> 1 / 2"
  unfolding roundTiesToEven_def Let_def by (auto; linarith)

lemma exponent_le:
  assumes "2 powi (- 1074) \<le> x"
  shows "2 powi (max (ilog2 x - 52) (- 1074)) \<le> x"
proof (cases "ilog2 x - 52 \<le> - 1074")
  case True
  then have "max (ilog2 x - 52) (- 1074) = - 1074" by simp
  with assms show ?thesis by simp
next
  case False
  then have m: "max (ilog2 x - 52) (- 1074) = ilog2 x - 52" by simp
  have "0 < (2::real) powi (- 1074)" by simp
  with assms have pos: "0 < x" by linarith
  have "(2::real) powi (ilog2 x - 52) \<le> 2 powi (ilog2 x)"
    by (rule power_int_increasing) simp_all
  also have "\<dots> \<le> x" by (rule ilog2_lower[OF pos])
  finally show ?thesis using m by simp
qed

lemma number_value_positive:
  assumes "2 powi (- 1074) \<le> x"
  shows "js_lt (Finite 0) (number_value x)"
proof -
  define e where "e = max (ilog2 x - 52) (- 1074)"
  define m where "m = roundTiesToEven (x / 2 powi e)"
  have "0 < (2::real) powi (- 1074)" by simp
  with assms have pos: "0 < x" by linarith
  have p2: "0 < (2::real) powi e" by simp
  from exponent_le[OF assms] have "2 powi e \<le> x" unfolding e_def .
  with p2 have "1 \<le> x / 2 powi e" by (simp add: field_simps)
  then have "1 \<le> m" unfolding m_def by (rule roundTiesToEven_ge_one)
  then have "0 < of_int m * (2::real) powi e" using p2 by simp
  then show ?thesis
    using pos by (simp add: number_value_def Let_def e_def m_def)
qed

lemma number_value_finite_lower:
  assumes "number_value x = Finite y" and "y \<noteq> 0"
  shows "2 powi (- 1074) \<le> \<bar>y\<bar>"
proof -
  define e where "e = max (ilog2 \<bar>x\<bar> - 52) (- 1074)"
  define m where "m = roundTiesToEven (\<bar>x\<bar> / 2 powi e)"
  from assms have x0: "x \<noteq> 0" by (auto simp: number_value_def)
  from assms x0 have y: "y = sgn x * (of_int m * 2 powi e)"
    by (simp add: number_value_def Let_def e_def m_def split: if_splits)
  have p2: "0 < (2::real) powi e" by simp
  have "0 \<le> \<bar>x\<bar> / 2 powi e" by simp
  then have "0 \<le> m" unfolding m_def by (rule roundTiesToEven_nonneg)
  moreover from y assms(2) have "m \<noteq> 0" by auto
  ultimately have m1: "1 \<le> m" by linarith
  have "(2::real) powi (- 1074) \<le> 2 powi e"
    by (rule power_int_increasing) (simp_all add: e_def)
  also have "\<dots> \<le> of_int m * 2 powi e"
  proof -
    from m1 have "(1::real) \<le> of_int m" by simp
    from mult_right_mono[OF this, of "2 powi e"] p2 show ?thesis by simp
  qed
  also have "\<dots> = \<bar>y\<bar>"
    using y x0 m1 p2 by (simp add: abs_mult)
  finally show ?thesis .
qed


text \<open>What \<^verbatim>\<open>Number\<close> reads from a form entry is NaN, an infinity or a rounded real.\<close>

lemma rounded_number_value: "rounded (number_value x)"
  by blast

lemma rounded_zero: "rounded (Finite 0)"
proof -
  have "number_value 0 = Finite 0" by (simp add: number_value_def)
  then show ?thesis by metis
qed

lemma rounded_nondecimal_literal: "rounded (nondecimal_literal base ds)"
  unfolding nondecimal_literal_def by (cases "digits_value base ds") auto

lemma rounded_signed_literal: "rounded (signed_literal sign u)"
  unfolding signed_literal_def by (cases "decimal_literal u") auto

lemma rounded_StringToNumber: "rounded (StringToNumber s)"
  unfolding StringToNumber_def Let_def
  using rounded_zero rounded_nondecimal_literal rounded_signed_literal
  by presburger

lemma rounded_Number_form: "rounded (Number (form_get formData k))"
proof (cases "formData k")
  case None
  then show ?thesis using rounded_zero by (simp add: form_get_def)
next
  case (Some entry)
  then show ?thesis
    using rounded_StringToNumber by (cases entry) (simp_all add: form_get_def)
qed

lemma scaled_amount_positive:
  assumes "js_lt (Finite 0) (Number (form_get formData k))"
  shows "js_lt (Finite 0) (js_times (Number (form_get formData k)) (Finite 100))"
proof -
  let ?a = "Number (form_get formData k)"
  from rounded_Number_form[of formData k] assms
  consider "?a = PosInf" | x where "?a = number_value x"
    by auto
  then show ?thesis
  proof cases
    case 1
    then show ?thesis by simp
  next
    case 2
    show ?thesis
    proof (cases "number_value x")
      case (Finite y)
      with 2 assms have ypos: "0 < y" by simp
      with number_value_finite_lower[OF Finite] have "2 powi (- 1074) \<le> y" by simp
      moreover have "(0::real) \<le> 2 powi (- 1074)" by simp
      ultimately have "2 powi (- 1074) \<le> y * 100" using ypos by linarith
      from number_value_positive[OF this] show ?thesis using 2 Finite by simp
    next
      case NaN with 2 assms show ?thesis by simp
    next
      case PosInf with 2 show ?thesis by simp
    next
      case NegInf with 2 assms show ?thesis by simp
    qed
  qed
qed

subsection \<open>The validator\<close>

text \<open>
  The issues of a field carry its path; \<^verbatim>\<open>fieldErrors\<close> gathers them by key; the
  issues of an object are those of its fields, in order; an aborted parse has
  an issue.
\<close>

lemma parse_type_issues:
  "fst (parse_type e t path v) = map (Pair path) (violations e t v)"
  by (cases t; cases v) (auto simp: violations_def Let_def comp_def split: jsval.splits)

lemma parse_type_value:
  "snd (parse_type e t path v) = snd (parse_type e t [] v)"
  by (cases t; cases v) (auto simp: Let_def split: jsval.splits)

lemma parse_type_aborted_issue:
  "snd (parse_type e t path v) = None \<Longrightarrow> violations e t v \<noteq> []"
  by (cases t; cases v) (auto simp: violations_def Let_def split: jsval.splits if_splits)

lemma fieldErrors_lookup: "fieldErrors issues k = reported (messages_at k issues)"
proof (induction issues)
  case Nil
  show ?case by (simp add: reported_def messages_at_def)
next
  case (Cons i issues)
  obtain p m where i: "i = (p, m)" by (cases i)
  show ?case
  proof (cases p)
    case Nil
    with i Cons show ?thesis by (simp add: messages_at_def)
  next
    case (Cons k' ks)
    with i Cons.IH show ?thesis
      by (auto simp: messages_at_def reported_def split: option.splits if_splits)
  qed
qed

lemma messages_at_append:
  "messages_at k (xs @ ys) = messages_at k xs @ messages_at k ys"
  by (simp add: messages_at_def)

lemma messages_at_field:
  "messages_at k (map (Pair [k']) ms) = (if k' = k then ms else [])"
  by (induction ms) (auto simp: messages_at_def)

lemma parse_shape_issues:
  "fst (parse_shape e sh input) =
     concat (map (\<lambda>(k, t). map (Pair [k]) (violations e t (property input k))) sh)"
proof (induction sh)
  case Nil
  show ?case by simp
next
  case (Cons kt sh)
  obtain k t where kt: "kt = (k, t)" by (cases kt)
  show ?case
    using Cons.IH parse_type_issues[of e t "[k]" "property input k"]
    by (simp add: kt split_beta)
qed

lemma parse_shape_aborted:
  "snd (parse_shape e sh input) = None \<longleftrightarrow>
     (\<exists>(k, t) \<in> set sh. snd (parse_type e t [] (property input k)) = None)"
proof (induction sh)
  case Nil
  show ?case by simp
next
  case (Cons kt sh)
  obtain k t where kt: "kt = (k, t)" by (cases kt)
  show ?case
    using Cons.IH parse_type_value[of e t "[k]" "property input k"]
    by (cases "snd (parse_type e t [] (property input k))";
        cases "snd (parse_shape e sh input)") (simp_all add: kt split_beta)
qed

lemma messages_at_Nil: "messages_at k [] = []"
  by (simp add: messages_at_def)

lemma messages_at_concat_other:
  "k \<notin> fst ` set sh \<Longrightarrow>
     messages_at k (concat (map (\<lambda>(k', t). map (Pair [k']) (g k' t)) sh)) = []"
  by (induction sh)
    (auto simp: messages_at_append messages_at_field messages_at_Nil)

lemma messages_at_concat:
  assumes "distinct (map fst sh)" and "(k, t) \<in> set sh"
  shows "messages_at k (concat (map (\<lambda>(k', t). map (Pair [k']) (g k' t)) sh)) = g k t"
  using assms
proof (induction sh)
  case Nil
  from Nil.prems(2) show ?case by simp
next
  case (Cons kt sh)
  obtain k' t' where kt: "kt = (k', t')" by (cases kt)
  show ?case
  proof (cases "k' = k")
    case True
    with Cons.prems kt have "t' = t" and "k \<notin> fst ` set sh"
      by (auto simp: image_iff)
    then show ?thesis
      using messages_at_concat_other[of k sh g] True kt
      by (simp add: messages_at_append messages_at_field)
  next
    case False
    with Cons kt show ?thesis
      by (auto simp: messages_at_append messages_at_field)
  qed
qed

lemma parse_shape_messages:
  assumes "distinct (map fst sh)" and "(k, t) \<in> set sh"
  shows "messages_at k (fst (parse_shape e sh input)) = violations e t (property input k)"
  unfolding parse_shape_issues
  using messages_at_concat[OF assms, of "\<lambda>k t. violations e t (property input k)"] .

lemma parse_shape_aborted_issue:
  "snd (parse_shape e sh input) = None \<Longrightarrow> fst (parse_shape e sh input) \<noteq> []"
proof -
  assume "snd (parse_shape e sh input) = None"
  then obtain k t where kt: "(k, t) \<in> set sh" and "snd (parse_type e t [] (property input k)) = None"
    by (auto simp: parse_shape_aborted)
  then have "violations e t (property input k) \<noteq> []" by (rule_tac parse_type_aborted_issue)
  with kt show ?thesis
    by (force simp: parse_shape_issues)
qed

subsection \<open>Evaluating sample runs\<close>

lemmas number_simps = number_value_def ilog2_def roundTiesToEven_def Let_def
  bitlen_numeral_simps powi_numeral_simps

lemmas string_number_simps = StringToNumber_def trim_def StrWhiteSpaceChar_def
  signed_literal_def decimal_literal_def exponent_part_def digits_value_def
  optional_digits_def digit_of_def digit_table_def nondecimal_literal_def

lemmas validator_simps = safeParse_def CreateInvoice_def UpdateInvoice_def FormSchema_def
  omit_def property_def form_get_def form_of_def js_le_def

lemmas sample_simps = sample_env_def failing_env_def no_state_def

text \<open>White space around a number is stripped, the no-break space included.\<close>

lemma Number_strips_white_space:
  "Number (Str (CHR 0xA0 # ''12'')) = Finite 12"
  "Number (Str (CHR 0xA0 # ''-5'')) = Finite (- 5)"
  "Number (Str ('' 25.50'' @ [CHR 0x09, CHR 0xA0])) = Finite (51 / 2)"
  by (simp_all add: string_number_simps number_simps)

subsection \<open>Route authorization\<close>

text \<open>
  Claim C2. For every request, the route predicate denies an unauthenticated
  request whose path starts with \<^verbatim>\<open>/dashboard\<close>, redirects an authenticated
  request for any other path to \<^verbatim>\<open>/dashboard\<close> (on the same origin), and allows
  every other request. A request is authenticated when it has a session with
  a user.
\<close>

theorem authorized_decision:
  fixes auth :: "Session option" and nextUrl :: URL
  defines "loggedIn \<equiv> (\<exists>session u. auth = Some session \<and> user session = Some u)"
    and "onDashboard \<equiv> startsWith (pathname nextUrl) ''/dashboard''"
  shows "(onDashboard \<and> \<not> loggedIn \<longrightarrow> authorized auth nextUrl = Bool False)
   \<and> (\<not> onDashboard \<and> loggedIn \<longrightarrow>
        authorized auth nextUrl =
          Response_redirect \<lparr>origin = origin nextUrl, pathname = ''/dashboard''\<rparr>)
   \<and> ((onDashboard \<longleftrightarrow> loggedIn) \<longrightarrow> authorized auth nextUrl = Bool True)"
proof -
  have l: "loggedIn \<longleftrightarrow> (case auth of None \<Rightarrow> False | Some session \<Rightarrow> user session \<noteq> None)"
    unfolding loggedIn_def by (cases auth) auto
  show ?thesis
    unfolding l onDashboard_def
    by (cases nextUrl) (simp add: authorized_def Let_def)
qed

theorem authorized_decision_witness:
  "authorized None \<lparr>origin = ''https://acme.test'', pathname = ''/dashboard/invoices''\<rparr> = Bool False
   \<and> authorized (Some \<lparr>user = Some \<lparr>user_id = ''1'', user_name = ''U'', user_email = ''u@acme.test'', user_password = ''h''\<rparr>\<rparr>)
         \<lparr>origin = ''https://acme.test'', pathname = ''/login''\<rparr>
       = Response_redirect \<lparr>origin = ''https://acme.test'', pathname = ''/dashboard''\<rparr>
   \<and> authorized None \<lparr>origin = ''https://acme.test'', pathname = ''/login''\<rparr> = Bool True"
proof -
  let ?dash = "\<lparr>origin = ''https://acme.test'', pathname = ''/dashboard/invoices''\<rparr>"
  let ?login = "\<lparr>origin = ''https://acme.test'', pathname = ''/login''\<rparr>"
  let ?auth = "Some \<lparr>user = Some \<lparr>user_id = ''1'', user_name = ''U'', user_email = ''u@acme.test'', user_password = ''h''\<rparr>\<rparr>"
  have d: "startsWith (pathname ?dash) ''/dashboard''" by (simp add: startsWith_def)
  have l: "\<not> startsWith (pathname ?login) ''/dashboard''" by (simp add: startsWith_def)
  from authorized_decision[where auth = None and nextUrl = ?dash] d
  have 1: "authorized None ?dash = Bool False" by simp
  from authorized_decision[where auth = ?auth and nextUrl = ?login] l
  have 2: "authorized ?auth ?login = Response_redirect \<lparr>origin = ''https://acme.test'', pathname = ''/dashboard''\<rparr>"
    by simp
  from authorized_decision[where auth = None and nextUrl = ?login] l
  have 3: "authorized None ?login = Bool True" by simp
  from 1 2 3 show ?thesis by blast
qed


subsection \<open>Deleting an invoice\<close>

text \<open>
  Claim C9. For every invoice identifier, \<open>deleteInvoice\<close> validates nothing and
  issues exactly one statement, the deletion of that identifier. When the
  database rejects it, the handler returns a plain message string and does
  nothing more; when the database accepts it, the handler invalidates the
  cached listing and returns without a redirect.
\<close>

theorem deleteInvoice_single_statement:
  "statements (snd (deleteInvoice rt invoice_id)) = [DELETE_FROM_invoices invoice_id]
   \<and> (\<forall>error. sql rt (DELETE_FROM_invoices invoice_id) = Inl error \<longrightarrow>
         deleteInvoice rt invoice_id =
           (Return (Some (''Failed to Delete Invoice. Database error: '' @ error)),
            [Sql (DELETE_FROM_invoices invoice_id)]))
   \<and> (\<forall>rows. sql rt (DELETE_FROM_invoices invoice_id) = Inr rows \<longrightarrow>
         deleteInvoice rt invoice_id =
           (Return None,
            [Sql (DELETE_FROM_invoices invoice_id), RevalidatePath ''/dashboard/invoices'']))"
  by (cases "sql rt (DELETE_FROM_invoices invoice_id)") (simp_all add: deleteInvoice_def)

theorem deleteInvoice_single_statement_witness:
  "deleteInvoice failing_env ''42'' =
     (Return (Some ''Failed to Delete Invoice. Database error: Error: connection refused''),
      [Sql (DELETE_FROM_invoices ''42'')])
   \<and> deleteInvoice sample_env ''42'' =
     (Return None, [Sql (DELETE_FROM_invoices ''42''), RevalidatePath ''/dashboard/invoices''])"
proof -
  have f: "sql failing_env (DELETE_FROM_invoices ''42'') = Inl ''Error: connection refused''"
    by (simp add: failing_env_def)
  have s: "sql sample_env (DELETE_FROM_invoices ''42'') = Inr []"
    by (simp add: sample_env_def)
  from deleteInvoice_single_statement[of failing_env "''42''"] f
  have 1: "deleteInvoice failing_env ''42'' =
     (Return (Some (''Failed to Delete Invoice. Database error: '' @ ''Error: connection refused'')),
      [Sql (DELETE_FROM_invoices ''42'')])" by blast
  from deleteInvoice_single_statement[of sample_env "''42''"] s
  have 2: "deleteInvoice sample_env ''42'' =
     (Return None, [Sql (DELETE_FROM_invoices ''42''), RevalidatePath ''/dashboard/invoices''])"
    by blast
  from 1 2 show ?thesis by simp
qed

subsection \<open>Effects of creating and updating an invoice\<close>

text \<open>The three ways a run of each handler can go.\<close>

lemma createInvoice_cases:
  "createInvoice rt prevState formData =
     (case safeParse (emailRegex rt) CreateInvoice (invoice_fields formData) of
        Inl issues \<Rightarrow>
          (Return \<lparr>errors = Some (fieldErrors issues),
                   message = Some ''Missing Fields. Failed to Create Invoice.''\<rparr>, [])
      | Inr data \<Rightarrow>
          (case sql rt (INSERT_INTO_invoices (property data ''customerId'')
                          (Num (js_times (Number (property data ''amount'')) (Finite 100)))
                          (property data ''status'') (today rt)) of
             Inl error \<Rightarrow>
               (Return \<lparr>errors = None,
                        message = Some (''Failed to Create Invoice. Database error: '' @ error)\<rparr>,
                [Sql (INSERT_INTO_invoices (property data ''customerId'')
                          (Num (js_times (Number (property data ''amount'')) (Finite 100)))
                          (property data ''status'') (today rt))])
           | Inr rows \<Rightarrow>
               (Throw (NEXT_REDIRECT ''/dashboard/invoices''),
                [Sql (INSERT_INTO_invoices (property data ''customerId'')
                          (Num (js_times (Number (property data ''amount'')) (Finite 100)))
                          (property data ''status'') (today rt)),
                 RevalidatePath ''/dashboard/invoices''])))"
  by (simp add: createInvoice_def Let_def split: sum.splits)

lemma updateInvoice_cases:
  "updateInvoice rt invoice_id prevState formData =
     (case safeParse (emailRegex rt) UpdateInvoice (invoice_fields formData) of
        Inl issues \<Rightarrow>
          (Return \<lparr>errors = Some (fieldErrors issues),
                   message = Some ''Missing Fields. Failed to Update Invoice.''\<rparr>, [])
      | Inr data \<Rightarrow>
          (case sql rt (UPDATE_invoices (property data ''customerId'')
                          (Num (js_times (Number (property data ''amount'')) (Finite 100)))
                          (property data ''status'') invoice_id) of
             Inl error \<Rightarrow>
               (Return \<lparr>errors = None,
                        message = Some (''Failed to Update Invoice. Database error: '' @ error)\<rparr>,
                [Sql (UPDATE_invoices (property data ''customerId'')
                          (Num (js_times (Number (property data ''amount'')) (Finite 100)))
                          (property data ''status'') invoice_id)])
           | Inr rows \<Rightarrow>
               (Throw (NEXT_REDIRECT ''/dashboard/invoices''),
                [Sql (UPDATE_invoices (property data ''customerId'')
                          (Num (js_times (Number (property data ''amount'')) (Finite 100)))
                          (property data ''status'') invoice_id),
                 RevalidatePath ''/dashboard/invoices''])))"
  by (simp add: updateInvoice_def Let_def split: sum.splits)

text \<open>
  Claim C3. In every run of \<open>createInvoice\<close> and of \<open>updateInvoice\<close>, the cached
  listing is invalidated exactly when the run reached storage success, and the
  run ends in the redirect to the listing exactly when it reached storage
  success. A run that did not reach it (validation failed, or the database
  rejected the statement) invalidates nothing and returns a state; a run whose
  validation failed performs no effect at all.
\<close>

theorem effects_iff_storage_success:
  fixes rt :: env and prevState :: State and formData :: FormData and invoice_id :: string
  defines "c \<equiv> createInvoice rt prevState formData"
    and "u \<equiv> updateInvoice rt invoice_id prevState formData"
  shows
  "(revalidated (snd c) = [''/dashboard/invoices''] \<longleftrightarrow> storage_succeeded rt (snd c))
   \<and> (fst c = Throw (NEXT_REDIRECT ''/dashboard/invoices'') \<longleftrightarrow> storage_succeeded rt (snd c))
   \<and> (\<not> storage_succeeded rt (snd c) \<longrightarrow> revalidated (snd c) = [] \<and> (\<exists>st. fst c = Return st))
   \<and> ((\<exists>issues. safeParse (emailRegex rt) CreateInvoice (invoice_fields formData) = Inl issues)
        \<longrightarrow> snd c = [])
   \<and> (revalidated (snd u) = [''/dashboard/invoices''] \<longleftrightarrow> storage_succeeded rt (snd u))
   \<and> (fst u = Throw (NEXT_REDIRECT ''/dashboard/invoices'') \<longleftrightarrow> storage_succeeded rt (snd u))
   \<and> (\<not> storage_succeeded rt (snd u) \<longrightarrow> revalidated (snd u) = [] \<and> (\<exists>st. fst u = Return st))
   \<and> ((\<exists>issues. safeParse (emailRegex rt) UpdateInvoice (invoice_fields formData) = Inl issues)
        \<longrightarrow> snd u = [])"
proof -
  have create: "(revalidated (snd c) = [''/dashboard/invoices''] \<longleftrightarrow> storage_succeeded rt (snd c))
   \<and> (fst c = Throw (NEXT_REDIRECT ''/dashboard/invoices'') \<longleftrightarrow> storage_succeeded rt (snd c))
   \<and> (\<not> storage_succeeded rt (snd c) \<longrightarrow> revalidated (snd c) = [] \<and> (\<exists>st. fst c = Return st))
   \<and> ((\<exists>issues. safeParse (emailRegex rt) CreateInvoice (invoice_fields formData) = Inl issues)
        \<longrightarrow> snd c = [])"
    unfolding c_def createInvoice_cases
    by (auto simp: storage_succeeded_def split: sum.splits)
  have update: "(revalidated (snd u) = [''/dashboard/invoices''] \<longleftrightarrow> storage_succeeded rt (snd u))
   \<and> (fst u = Throw (NEXT_REDIRECT ''/dashboard/invoices'') \<longleftrightarrow> storage_succeeded rt (snd u))
   \<and> (\<not> storage_succeeded rt (snd u) \<longrightarrow> revalidated (snd u) = [] \<and> (\<exists>st. fst u = Return st))
   \<and> ((\<exists>issues. safeParse (emailRegex rt) UpdateInvoice (invoice_fields formData) = Inl issues)
        \<longrightarrow> snd u = [])"
    unfolding u_def updateInvoice_cases
    by (auto simp: storage_succeeded_def split: sum.splits)
  from create update show ?thesis by blast
qed


theorem effects_iff_storage_success_witness:
  "fst (createInvoice sample_env no_state
          (form_of [(''customerId'', ''c1''), (''amount'', ''25.50''), (''status'', ''pending'')]))
     = Throw (NEXT_REDIRECT ''/dashboard/invoices'')
   \<and> revalidated (snd (createInvoice sample_env no_state
          (form_of [(''customerId'', ''c1''), (''amount'', ''25.50''), (''status'', ''pending'')])))
     = [''/dashboard/invoices'']
   \<and> revalidated (snd (updateInvoice failing_env ''7'' no_state
          (form_of [(''customerId'', ''c1''), (''amount'', ''25.50''), (''status'', ''pending'')])))
     = []
   \<and> snd (createInvoice sample_env no_state
          (form_of [(''customerId'', ''c1''), (''amount'', ''-1''), (''status'', ''pending'')]))
     = []"
proof -
  let ?ok = "form_of [(''customerId'', ''c1''), (''amount'', ''25.50''), (''status'', ''pending'')]"
  let ?bad = "form_of [(''customerId'', ''c1''), (''amount'', ''-1''), (''status'', ''pending'')]"
  have s: "storage_succeeded sample_env (snd (createInvoice sample_env no_state ?ok))"
    by (simp add: storage_succeeded_def createInvoice_def validator_simps string_number_simps
        number_simps sample_simps)
  have f: "\<not> storage_succeeded failing_env (snd (updateInvoice failing_env ''7'' no_state ?ok))"
    by (simp add: storage_succeeded_def updateInvoice_def validator_simps string_number_simps
        number_simps sample_simps)
  have v: "\<exists>issues. safeParse (emailRegex sample_env) CreateInvoice (invoice_fields ?bad) = Inl issues"
    by (simp add: validator_simps string_number_simps number_simps sample_simps)
  note t1 = effects_iff_storage_success[where rt = sample_env and prevState = no_state
      and formData = ?ok and invoice_id = "''7''"]
  note t2 = effects_iff_storage_success[where rt = failing_env and prevState = no_state
      and formData = ?ok and invoice_id = "''7''"]
  note t3 = effects_iff_storage_success[where rt = sample_env and prevState = no_state
      and formData = ?bad and invoice_id = "''7''"]
  from t1 s have 1: "fst (createInvoice sample_env no_state ?ok) = Throw (NEXT_REDIRECT ''/dashboard/invoices'')"
    and 2: "revalidated (snd (createInvoice sample_env no_state ?ok)) = [''/dashboard/invoices'']"
    by blast+
  from t2 f have 3: "revalidated (snd (updateInvoice failing_env ''7'' no_state ?ok)) = []"
    by blast
  from t3 v have 4: "snd (createInvoice sample_env no_state ?bad) = []"
    by blast
  from 1 2 3 4 show ?thesis by blast
qed

subsection \<open>One validation for creating and updating\<close>

text \<open>
  Claim C10. \<open>CreateInvoice\<close> and \<open>UpdateInvoice\<close> are the same schema, the form
  schema without \<^verbatim>\<open>id\<close> and \<^verbatim>\<open>date\<close>. So for every form, \<open>createInvoice\<close> and
  \<open>updateInvoice\<close> return field errors on the same inputs, namely when the
  schema rejects the form, and then return the same field errors.
\<close>

theorem create_update_same_validation:
  "CreateInvoice = UpdateInvoice
   \<and> CreateInvoice =
       ZodObject
         [(''customerId'', ZodString (Some ''Please select a customer.'') []),
          (''amount'', ZodNumber True [Gt (Finite 0) ''Please enter an amount greater than $0.'']),
          (''status'', ZodEnum [''pending'', ''paid''] (Some ''Please select an invoice status.''))]
   \<and> returned_errors (fst (createInvoice rt prevState formData))
       = returned_errors (fst (updateInvoice rt invoice_id prevState' formData))
   \<and> returned_errors (fst (createInvoice rt prevState formData))
       = (case safeParse (emailRegex rt) CreateInvoice (invoice_fields formData) of
            Inl issues \<Rightarrow> Some (fieldErrors issues)
          | Inr data \<Rightarrow> None)"
proof -
  have same: "CreateInvoice = UpdateInvoice"
    by (simp add: CreateInvoice_def UpdateInvoice_def)
  have shape: "CreateInvoice =
       ZodObject
         [(''customerId'', ZodString (Some ''Please select a customer.'') []),
          (''amount'', ZodNumber True [Gt (Finite 0) ''Please enter an amount greater than $0.'']),
          (''status'', ZodEnum [''pending'', ''paid''] (Some ''Please select an invoice status.''))]"
    by (simp add: CreateInvoice_def FormSchema_def omit_def)
  have c: "returned_errors (fst (createInvoice rt prevState formData))
       = (case safeParse (emailRegex rt) CreateInvoice (invoice_fields formData) of
            Inl issues \<Rightarrow> Some (fieldErrors issues)
          | Inr data \<Rightarrow> None)"
    unfolding createInvoice_cases
    by (simp add: returned_errors_def split: sum.splits)
  have u: "returned_errors (fst (updateInvoice rt invoice_id prevState' formData))
       = (case safeParse (emailRegex rt) UpdateInvoice (invoice_fields formData) of
            Inl issues \<Rightarrow> Some (fieldErrors issues)
          | Inr data \<Rightarrow> None)"
    unfolding updateInvoice_cases
    by (simp add: returned_errors_def split: sum.splits)
  from same shape c u show ?thesis by simp
qed

theorem create_update_same_validation_witness:
  "returned_errors (fst (createInvoice sample_env no_state
       (form_of [(''customerId'', ''c1''), (''amount'', ''0''), (''status'', ''pending'')])))
   = returned_errors (fst (updateInvoice sample_env ''7'' no_state
       (form_of [(''customerId'', ''c1''), (''amount'', ''0''), (''status'', ''pending'')])))"
  using create_update_same_validation[where rt = sample_env and prevState = no_state
      and prevState' = no_state and invoice_id = "''7''"
      and formData = "form_of [(''customerId'', ''c1''), (''amount'', ''0''), (''status'', ''pending'')]"]
  by blast

subsection \<open>Validating an invoice form\<close>

lemma invoice_shape:
  "omit [''id'', ''date''] FormSchema =
     [(''customerId'', ZodString (Some ''Please select a customer.'') []),
      (''amount'', ZodNumber True [Gt (Finite 0) ''Please enter an amount greater than $0.'']),
      (''status'', ZodEnum [''pending'', ''paid''] (Some ''Please select an invoice status.''))]"
  by (simp add: FormSchema_def omit_def)

lemma invoice_shape_distinct: "distinct (map fst (omit [''id'', ''date''] FormSchema))"
  by (simp add: invoice_shape)

lemma invoice_property:
  "property (invoice_fields formData) ''customerId'' = form_get formData ''customerId''"
  "property (invoice_fields formData) ''amount'' = form_get formData ''amount''"
  "property (invoice_fields formData) ''status'' = form_get formData ''status''"
  by (simp_all add: property_def)

lemma safeParse_object_Inl:
  "fst (parse_shape e sh input) \<noteq> [] \<Longrightarrow>
     safeParse e (ZodObject sh) input = Inl (fst (parse_shape e sh input))"
  by (cases "parse_shape e sh input") (auto simp: safeParse_def split: option.splits)

lemma safeParse_object_Inr:
  "safeParse e (ZodObject sh) input = Inr data \<longleftrightarrow> parse_shape e sh input = ([], Some data)"
  by (cases "parse_shape e sh input") (auto simp: safeParse_def split: option.splits)

lemma messages_at_nonempty: "messages_at k issues \<noteq> [] \<Longrightarrow> issues \<noteq> []"
  by (auto simp: messages_at_def)

lemma violations_amount:
  "violations e (ZodNumber True [Gt (Finite 0) msg]) v =
     (if Number v = NaN then [''Expected number, received nan'']
      else if js_le (Number v) (Finite 0) then [msg] else [])"
  by (simp add: violations_def Let_def invalid_type_message_def List.map_filter_simps)

lemma string_value:
  "snd (parse_type e (ZodString custom checks) path v) = Some d \<longleftrightarrow> (\<exists>s. v = Str s) \<and> d = v"
  by (cases v) auto

lemma number_value_parsed:
  "snd (parse_type e (ZodNumber True checks) path v) = Some d \<longleftrightarrow>
     Number v \<noteq> NaN \<and> d = Num (Number v)"
  by (auto simp: Let_def)

lemma enum_value:
  "snd (parse_type e (ZodEnum values custom) path v) = Some d \<longleftrightarrow>
     (\<exists>s. v = Str s \<and> s \<in> set values) \<and> d = v"
  by (cases v) auto

lemma invoice_issues_amount:
  "messages_at ''amount''
     (fst (parse_shape e (omit [''id'', ''date''] FormSchema) (invoice_fields formData))) =
   violations e (ZodNumber True [Gt (Finite 0) ''Please enter an amount greater than $0.''])
     (form_get formData ''amount'')"
  using parse_shape_messages[OF invoice_shape_distinct, of "''amount''"
      "ZodNumber True [Gt (Finite 0) ''Please enter an amount greater than $0.'']" e
      "invoice_fields formData"]
  by (simp add: invoice_shape invoice_property)

text \<open>
  Claim C4. For every form whose amount, as \<^verbatim>\<open>z.coerce.number()\<close> reads it, is
  less than or equal to zero, \<open>createInvoice\<close> returns a state whose field
  errors have an entry for \<^verbatim>\<open>amount\<close> (the message of the \<^verbatim>\<open>gt(0)\<close> check), and
  it issues no statement: the run has no effect.
\<close>

theorem nonpositive_amount_rejected:
  assumes "js_le (Number (form_get formData ''amount'')) (Finite 0)"
  shows "\<exists>m. createInvoice rt prevState formData =
           (Return \<lparr>errors = Some m, message = Some ''Missing Fields. Failed to Create Invoice.''\<rparr>, [])
         \<and> m ''amount'' = Some [''Please enter an amount greater than $0.'']"
proof -
  let ?issues = "fst (parse_shape (emailRegex rt) (omit [''id'', ''date''] FormSchema)
                    (invoice_fields formData))"
  from assms have "Number (form_get formData ''amount'') \<noteq> NaN" by (auto simp: js_le_def)
  with assms have at: "messages_at ''amount'' ?issues = [''Please enter an amount greater than $0.'']"
    by (simp add: invoice_issues_amount violations_amount)
  then have "?issues \<noteq> []" by (intro messages_at_nonempty[of "''amount''"]) simp
  then have "safeParse (emailRegex rt) CreateInvoice (invoice_fields formData) = Inl ?issues"
    unfolding CreateInvoice_def by (rule safeParse_object_Inl)
  then have "createInvoice rt prevState formData =
      (Return \<lparr>errors = Some (fieldErrors ?issues),
               message = Some ''Missing Fields. Failed to Create Invoice.''\<rparr>, [])"
    by (simp add: createInvoice_cases)
  moreover have "fieldErrors ?issues ''amount'' = Some [''Please enter an amount greater than $0.'']"
    by (simp add: fieldErrors_lookup at reported_def)
  ultimately show ?thesis by blast
qed

theorem nonpositive_amount_rejected_witness:
  "js_le (Number (form_get (form_of [(''customerId'', ''c1''), (''amount'', ''-3.5''), (''status'', ''paid'')]) ''amount''))
     (Finite 0)
   \<and> (\<exists>m. createInvoice sample_env no_state
              (form_of [(''customerId'', ''c1''), (''amount'', ''-3.5''), (''status'', ''paid'')]) =
           (Return \<lparr>errors = Some m, message = Some ''Missing Fields. Failed to Create Invoice.''\<rparr>, [])
         \<and> m ''amount'' = Some [''Please enter an amount greater than $0.''])"
proof -
  let ?form = "form_of [(''customerId'', ''c1''), (''amount'', ''-3.5''), (''status'', ''paid'')]"
  have h: "js_le (Number (form_get ?form ''amount'')) (Finite 0)"
    by (simp add: validator_simps string_number_simps number_simps)
  from h nonpositive_amount_rejected[OF h, of sample_env no_state] show ?thesis by blast
qed

subsection \<open>The amount that reaches the database\<close>

lemma invoice_valid_data:
  assumes "safeParse e CreateInvoice (invoice_fields formData) = Inr data"
  shows "data = [(''customerId'', form_get formData ''customerId''),
                 (''amount'', Num (Number (form_get formData ''amount''))),
                 (''status'', form_get formData ''status'')]"
    and "js_lt (Finite 0) (Number (form_get formData ''amount''))"
proof -
  let ?sh = "omit [''id'', ''date''] FormSchema"
  let ?a = "Number (form_get formData ''amount'')"
  from assms have p: "parse_shape e ?sh (invoice_fields formData) = ([], Some data)"
    by (simp add: CreateInvoice_def safeParse_object_Inr)
  then have "snd (parse_shape e ?sh (invoice_fields formData)) = Some data" by simp
  then show "data = [(''customerId'', form_get formData ''customerId''),
                 (''amount'', Num ?a), (''status'', form_get formData ''status'')]"
    unfolding invoice_shape
    by (auto simp: split_beta invoice_property string_value number_value_parsed enum_value
        simp del: parse_type.simps split: option.splits)
  from p have "messages_at ''amount'' (fst (parse_shape e ?sh (invoice_fields formData))) = []"
    by (simp add: messages_at_Nil)
  then have "?a \<noteq> NaN \<and> \<not> js_le ?a (Finite 0)"
    by (simp add: invoice_issues_amount violations_amount split: if_splits)
  then show "js_lt (Finite 0) ?a" by (auto simp: js_le_def)
qed

text \<open>
  Claim C1, as amended. For every form that passes validation (both handlers
  validate with the same schema), the amount in the statement of
  \<open>createInvoice\<close> and of \<open>updateInvoice\<close> is the validated amount, a Number
  greater than zero, multiplied by 100 as JavaScript multiplies; it is greater
  than zero. It need not be a whole number.
\<close>

theorem stored_amount_scaled_positive:
  fixes rt :: env and formData :: FormData
  defines "amount \<equiv> Number (form_get formData ''amount'')"
  assumes "safeParse (emailRegex rt) CreateInvoice (invoice_fields formData) = Inr data"
  shows "js_lt (Finite 0) amount
   \<and> js_lt (Finite 0) (js_times amount (Finite 100))
   \<and> statements (snd (createInvoice rt prevState formData)) =
       [INSERT_INTO_invoices (form_get formData ''customerId'')
          (Num (js_times amount (Finite 100))) (form_get formData ''status'') (today rt)]
   \<and> statements (snd (updateInvoice rt invoice_id prevState formData)) =
       [UPDATE_invoices (form_get formData ''customerId'')
          (Num (js_times amount (Finite 100))) (form_get formData ''status'') invoice_id]"
proof -
  note d = invoice_valid_data[OF assms(2)]
  from d(2) have pos: "js_lt (Finite 0) amount" unfolding amount_def .
  from scaled_amount_positive[OF d(2)]
  have cents: "js_lt (Finite 0) (js_times amount (Finite 100))" unfolding amount_def .
  from assms(2) have u: "safeParse (emailRegex rt) UpdateInvoice (invoice_fields formData) = Inr data"
    by (simp add: CreateInvoice_def UpdateInvoice_def)
  have c: "statements (snd (createInvoice rt prevState formData)) =
       [INSERT_INTO_invoices (form_get formData ''customerId'')
          (Num (js_times amount (Finite 100))) (form_get formData ''status'') (today rt)]"
    unfolding createInvoice_cases amount_def
    by (simp add: assms(2) d(1) property_def split: sum.splits)
  have up: "statements (snd (updateInvoice rt invoice_id prevState formData)) =
       [UPDATE_invoices (form_get formData ''customerId'')
          (Num (js_times amount (Finite 100))) (form_get formData ''status'') invoice_id]"
    unfolding updateInvoice_cases amount_def
    by (simp add: u d(1) property_def split: sum.splits)
  from pos cents c up show ?thesis by blast
qed

theorem stored_amount_scaled_positive_witness:
  "safeParse (emailRegex sample_env) CreateInvoice
     (invoice_fields (form_of [(''customerId'', ''c1''), (''amount'', ''25.50''), (''status'', ''pending'')]))
   = Inr [(''customerId'', Str ''c1''), (''amount'', Num (Finite (51 / 2))), (''status'', Str ''pending'')]
   \<and> statements (snd (createInvoice sample_env no_state
         (form_of [(''customerId'', ''c1''), (''amount'', ''25.50''), (''status'', ''pending'')])))
     = [INSERT_INTO_invoices (Str ''c1'') (Num (Finite 2550)) (Str ''pending'') ''2024-01-01'']"
proof -
  let ?form = "form_of [(''customerId'', ''c1''), (''amount'', ''25.50''), (''status'', ''pending'')]"
  have h: "safeParse (emailRegex sample_env) CreateInvoice (invoice_fields ?form)
     = Inr [(''customerId'', Str ''c1''), (''amount'', Num (Finite (51 / 2))), (''status'', Str ''pending'')]"
    by (simp add: validator_simps string_number_simps number_simps sample_simps)
  have a: "Number (form_get ?form ''amount'') = Finite (51 / 2)"
    by (simp add: validator_simps string_number_simps number_simps)
  have t: "js_times (Finite (51 / 2)) (Finite 100) = Finite 2550"
    by (simp add: number_simps)
  have f: "form_get ?form ''customerId'' = Str ''c1''" "form_get ?form ''status'' = Str ''pending''"
    "today sample_env = ''2024-01-01''"
    by (simp_all add: form_get_def form_of_def sample_env_def)
  from stored_amount_scaled_positive[OF h, of no_state]
  have "statements (snd (createInvoice sample_env no_state ?form)) =
       [INSERT_INTO_invoices (form_get ?form ''customerId'')
          (Num (js_times (Number (form_get ?form ''amount'')) (Finite 100)))
          (form_get ?form ''status'') (today sample_env)]"
    by blast
  then have "statements (snd (createInvoice sample_env no_state ?form))
     = [INSERT_INTO_invoices (Str ''c1'') (Num (Finite 2550)) (Str ''pending'') ''2024-01-01'']"
    by (simp only: a t f)
  with h show ?thesis by blast
qed

text \<open>
  The claim as stated fails: the amount \<^verbatim>\<open>0.125\<close> passes validation and reaches
  the statement as 12.5, which is no whole number of cents.
\<close>

theorem stored_amount_not_integer:
  "safeParse (emailRegex sample_env) CreateInvoice
     (invoice_fields (form_of [(''customerId'', ''c1''), (''amount'', ''0.125''), (''status'', ''pending'')]))
   = Inr [(''customerId'', Str ''c1''), (''amount'', Num (Finite (1 / 8))), (''status'', Str ''pending'')]
   \<and> statements (snd (createInvoice sample_env no_state
         (form_of [(''customerId'', ''c1''), (''amount'', ''0.125''), (''status'', ''pending'')])))
     = [INSERT_INTO_invoices (Str ''c1'') (Num (Finite (25 / 2))) (Str ''pending'') ''2024-01-01'']
   \<and> \<not> isInteger (Finite (25 / 2))"
  by (simp add: createInvoice_def validator_simps string_number_simps number_simps sample_simps)

subsection \<open>Authentication\<close>

lemma email_parse:
  "safeParse_value e (ZodString None [Email msg]) v =
     (case v of
        Str s \<Rightarrow> if e s then Inr v else Inl [([], msg)]
      | _ \<Rightarrow> Inl [([], invalid_type_message None ''string'' v)])"
  by (cases v) (simp_all add: safeParse_value_def List.map_filter_simps)

lemma email_wellformed:
  "(\<exists>d. safeParse_value e (ZodString None [Email msg]) (form_get formData k) = Inr d)
     \<longleftrightarrow> (\<exists>s. formData k = Some (Text s) \<and> e s)"
  by (auto simp: email_parse form_get_def split: option.splits FormDataEntryValue.splits)

lemma getUser_returns: "\<exists>found. getUser rt address = Return found"
  by (simp add: getUser_def split: sum.splits)

text \<open>
  Claim C6, as amended. When \<^verbatim>\<open>signIn\<close> throws, \<open>authenticate\<close> first checks the
  submitted address. If it is not a well-formed address (no entry, a file, or
  text the pattern rejects) the result is the state \<^verbatim>\<open>Invalid email\<close>, whatever
  was thrown. Otherwise a \<^verbatim>\<open>CredentialsSignin\<close> error gives \<^verbatim>\<open>Invalid credentials\<close>,
  any other \<^verbatim>\<open>AuthError\<close> gives \<^verbatim>\<open>Valid credentials, but failed to authenticate\<close>,
  both with the address, and an error that is no \<^verbatim>\<open>AuthError\<close> is thrown again.
  The three messages differ.
\<close>

theorem authenticate_error_classification:
  fixes rt :: env and formData :: FormData
  defines "wellformed \<equiv> (\<exists>s. formData ''email'' = Some (Text s) \<and> emailRegex rt s)"
  assumes "signIn ''credentials'' formData = Throw error"
  shows "(\<not> wellformed \<longrightarrow>
            authenticate rt signIn prevState formData =
              Return (Some \<lparr>authenticateState.message = Some ''Invalid email'',
                             authenticateState.email = None\<rparr>))
   \<and> (wellformed \<and> error = AuthError ''CredentialsSignin'' \<longrightarrow>
            authenticate rt signIn prevState formData =
              Return (Some \<lparr>authenticateState.message = Some ''Invalid credentials'',
                             authenticateState.email = Some (form_get formData ''email'')\<rparr>))
   \<and> (wellformed \<and> (\<exists>type. error = AuthError type \<and> type \<noteq> ''CredentialsSignin'') \<longrightarrow>
            authenticate rt signIn prevState formData =
              Return (Some \<lparr>authenticateState.message =
                               Some ''Valid credentials, but failed to authenticate'',
                             authenticateState.email = Some (form_get formData ''email'')\<rparr>))
   \<and> (wellformed \<and> (\<forall>type. error \<noteq> AuthError type) \<longrightarrow>
            authenticate rt signIn prevState formData = Throw error)
   \<and> distinct [''Invalid email'', ''Invalid credentials'',
                 ''Valid credentials, but failed to authenticate'']"
proof (cases wellformed)
  case True
  then obtain s where s: "formData ''email'' = Some (Text s)" "emailRegex rt s"
    unfolding wellformed_def by blast
  then have p: "safeParse_value (emailRegex rt) (ZodString None [Email ''Invalid email''])
      (form_get formData ''email'') = Inr (form_get formData ''email'')"
    by (simp add: email_parse form_get_def)
  show ?thesis
    using True assms(2) p
    by (cases error) (simp_all add: authenticate_def)
next
  case False
  then have "\<nexists>d. safeParse_value (emailRegex rt) (ZodString None [Email ''Invalid email''])
      (form_get formData ''email'') = Inr d"
    unfolding wellformed_def by (simp only: email_wellformed not_False_eq_True)
  then obtain issues where "safeParse_value (emailRegex rt) (ZodString None [Email ''Invalid email''])
      (form_get formData ''email'') = Inl issues"
    by (cases "safeParse_value (emailRegex rt) (ZodString None [Email ''Invalid email''])
      (form_get formData ''email'')") auto
  then show ?thesis
    using False assms(2) by (simp add: authenticate_def)
qed

theorem authenticate_error_classification_witness:
  "authenticate sample_env (\<lambda>provider formData. Throw (AuthError ''CredentialsSignin'')) None
     (form_of [(''email'', ''user@acme.test''), (''password'', ''secret'')])
   = Return (Some \<lparr>authenticateState.message = Some ''Invalid credentials'',
                   authenticateState.email = Some (Str ''user@acme.test'')\<rparr>)
   \<and> authenticate sample_env (\<lambda>provider formData. Throw (NEXT_REDIRECT ''/dashboard'')) None
     (form_of [(''email'', ''user@acme.test''), (''password'', ''secret'')])
   = Throw (NEXT_REDIRECT ''/dashboard'')"
proof -
  let ?form = "form_of [(''email'', ''user@acme.test''), (''password'', ''secret'')]"
  let ?cs = "\<lambda>provider formData. Throw (AuthError ''CredentialsSignin'') :: unit completion"
  let ?rd = "\<lambda>provider formData. Throw (NEXT_REDIRECT ''/dashboard'') :: unit completion"
  have w: "\<exists>s. ?form ''email'' = Some (Text s) \<and> emailRegex sample_env s"
    by (simp add: form_of_def sample_env_def)
  have g: "form_get ?form ''email'' = Str ''user@acme.test''"
    by (simp add: form_of_def form_get_def)
  have 1: "?cs ''credentials'' ?form = Throw (AuthError ''CredentialsSignin'')" by simp
  have 2: "?rd ''credentials'' ?form = Throw (NEXT_REDIRECT ''/dashboard'')" by simp
  from authenticate_error_classification[of ?cs ?form, OF 1, of sample_env None] w
  have a: "authenticate sample_env ?cs None ?form
     = Return (Some \<lparr>authenticateState.message = Some ''Invalid credentials'',
                     authenticateState.email = Some (form_get ?form ''email'')\<rparr>)"
    by blast
  from authenticate_error_classification[of ?rd ?form, OF 2, of sample_env None] w
  have b: "authenticate sample_env ?rd None ?form = Throw (NEXT_REDIRECT ''/dashboard'')"
    by blast
  from a b show ?thesis by (simp only: g)
qed

text \<open>
  The claim as stated fails: with no address in the form, an error that is
  no \<^verbatim>\<open>AuthError\<close> is turned into the state \<^verbatim>\<open>Invalid email\<close>, not thrown again.
\<close>

theorem unrecognized_error_not_reraised:
  "authenticate sample_env (\<lambda>provider formData. Throw (Error ''TypeError: fetch failed'')) None
     (form_of [(''password'', ''secret'')])
   = Return (Some \<lparr>authenticateState.message = Some ''Invalid email'',
                   authenticateState.email = None\<rparr>)"
  by (simp add: authenticate_def safeParse_value_def form_of_def form_get_def)

text \<open>
  Claim C5. Take a form with a well-formed address such that the lookup of
  any address the sign-in schema reads from the credentials finds no row or
  fails. Then \<open>authorize\<close> yields no user, and \<open>authenticate\<close>, run against the
  credentials sign-in, returns the state \<^verbatim>\<open>Invalid credentials\<close> with that
  address instead of throwing. And \<open>getUser\<close> never throws: when the query
  fails it returns \<^verbatim>\<open>undefined\<close>.
\<close>

theorem unknown_user_invalid_credentials:
  assumes "formData ''email'' = Some (Text address)" and "emailRegex rt address"
    and "\<And>e p. signInSchema rt (credentials_of formData) = Some (e, p) \<Longrightarrow>
           sql rt (SELECT_FROM_users e) = Inr [] \<or> (\<exists>error. sql rt (SELECT_FROM_users e) = Inl error)"
  shows "authenticate rt (credentials_signIn rt credentials_of proceed) prevState formData =
           Return (Some \<lparr>authenticateState.message = Some ''Invalid credentials'',
                          authenticateState.email = Some (Str address)\<rparr>)
   \<and> authorize rt (credentials_of formData) = Return None
   \<and> (\<forall>e error. sql rt (SELECT_FROM_users e) = Inl error \<longrightarrow> getUser rt e = Return None)
   \<and> (\<forall>e. \<exists>found. getUser rt e = Return found)"
proof -
  have lookup: "getUser rt e = Return None"
    if "signInSchema rt (credentials_of formData) = Some (e, p)" for e p
    using assms(3)[OF that] by (auto simp: getUser_def)
  have null: "authorize rt (credentials_of formData) = Return None"
    by (cases "signInSchema rt (credentials_of formData)")
      (auto simp: authorize_def lookup)
  then have thrown: "credentials_signIn rt credentials_of proceed ''credentials'' formData =
      Throw (AuthError ''CredentialsSignin'')"
    by (simp add: credentials_signIn_def)
  have parsed: "safeParse_value (emailRegex rt) (ZodString None [Email ''Invalid email''])
      (form_get formData ''email'') = Inr (Str address)"
    using assms(1,2) by (simp add: email_parse form_get_def)
  have 1: "authenticate rt (credentials_signIn rt credentials_of proceed) prevState formData =
           Return (Some \<lparr>authenticateState.message = Some ''Invalid credentials'',
                          authenticateState.email = Some (Str address)\<rparr>)"
    by (simp add: authenticate_def thrown parsed)
  have 2: "\<forall>e error. sql rt (SELECT_FROM_users e) = Inl error \<longrightarrow> getUser rt e = Return None"
    by (simp add: getUser_def)
  have 3: "\<forall>e. \<exists>found. getUser rt e = Return found"
    by (simp add: getUser_returns)
  from 1 null 2 3 show ?thesis by blast
qed

theorem unknown_user_invalid_credentials_witness:
  "authenticate sample_env
     (credentials_signIn sample_env sample_credentials (\<lambda>u. Throw (NEXT_REDIRECT ''/dashboard'')))
     None (form_of [(''email'', ''nobody@acme.test''), (''password'', ''Secret12!'')])
   = Return (Some \<lparr>authenticateState.message = Some ''Invalid credentials'',
                   authenticateState.email = Some (Str ''nobody@acme.test'')\<rparr>)
   \<and> getUser failing_env ''nobody@acme.test'' = Return None"
proof -
  let ?form = "form_of [(''email'', ''nobody@acme.test''), (''password'', ''Secret12!'')]"
  have 1: "?form ''email'' = Some (Text ''nobody@acme.test'')" by (simp add: form_of_def)
  have 2: "emailRegex sample_env ''nobody@acme.test''" by (simp add: sample_env_def)
  have 3: "sql sample_env (SELECT_FROM_users e) = Inr [] \<or>
      (\<exists>error. sql sample_env (SELECT_FROM_users e) = Inl error)" for e
    by (simp add: sample_env_def)
  have 4: "sql failing_env (SELECT_FROM_users ''nobody@acme.test'') = Inl ''Error: connection refused''"
    by (simp add: sample_simps)
  note t = unknown_user_invalid_credentials[of ?form "''nobody@acme.test''" sample_env
      sample_credentials, OF 1 2 3]
  have e2: "emailRegex failing_env ''nobody@acme.test''" by (simp add: sample_simps)
  have e3: "sql failing_env (SELECT_FROM_users e) = Inr [] \<or>
      (\<exists>error. sql failing_env (SELECT_FROM_users e) = Inl error)" for e
    by (simp add: sample_simps)
  note f = unknown_user_invalid_credentials[of ?form "''nobody@acme.test''" failing_env
      sample_credentials, OF 1 e2 e3]
  have 5: "authenticate sample_env
     (credentials_signIn sample_env sample_credentials (\<lambda>u. Throw (NEXT_REDIRECT ''/dashboard'')))
     None ?form
   = Return (Some \<lparr>authenticateState.message = Some ''Invalid credentials'',
                   authenticateState.email = Some (Str ''nobody@acme.test'')\<rparr>)"
    using t by blast
  have 6: "getUser failing_env ''nobody@acme.test'' = Return None"
    using f 4 by blast
  from 5 6 show ?thesis by blast
qed

subsection \<open>Field errors of the handlers\<close>

lemma reported_messages_Nil: "reported (messages_at k []) = None"
  by (simp add: reported_def messages_at_Nil)

lemma field_error_object:
  assumes "returned_errors c =
             (case safeParse e (ZodObject sh) input of
                Inl issues \<Rightarrow> Some (fieldErrors issues)
              | Inr data \<Rightarrow> None)"
  shows "field_error c k = reported (messages_at k (fst (parse_shape e sh input)))"
proof (cases "fst (parse_shape e sh input) = []")
  case True
  then have "\<exists>data. safeParse e (ZodObject sh) input = Inr data"
    using parse_shape_aborted_issue[of e sh input]
    by (cases "parse_shape e sh input") (auto simp: safeParse_def split: option.splits)
  with assms True show ?thesis
    by (auto simp: field_error_def reported_messages_Nil)
next
  case False
  from safeParse_object_Inl[OF False] assms show ?thesis
    by (simp add: field_error_def fieldErrors_lookup)
qed

lemma updateInvoice_returned_errors:
  "returned_errors (fst (updateInvoice rt invoice_id prevState formData))
     = (case safeParse (emailRegex rt) UpdateInvoice (invoice_fields formData) of
          Inl issues \<Rightarrow> Some (fieldErrors issues)
        | Inr data \<Rightarrow> None)"
  unfolding updateInvoice_cases
  by (simp add: returned_errors_def split: sum.splits)

lemma createInvoice_returned_errors:
  "returned_errors (fst (createInvoice rt prevState formData))
     = (case safeParse (emailRegex rt) CreateInvoice (invoice_fields formData) of
          Inl issues \<Rightarrow> Some (fieldErrors issues)
        | Inr data \<Rightarrow> None)"
  unfolding createInvoice_cases
  by (simp add: returned_errors_def split: sum.splits)

lemma invoice_property_any:
  "(k, t) \<in> set (omit [''id'', ''date''] FormSchema) \<Longrightarrow>
     property (invoice_fields formData) k = form_get formData k"
  by (auto simp: invoice_shape invoice_property)

lemma invoice_field_errors:
  assumes "(k, t) \<in> set (omit [''id'', ''date''] FormSchema)"
  shows "field_error (fst (createInvoice rt prevState formData)) k
           = reported (violations (emailRegex rt) t (form_get formData k))"
    and "field_error (fst (updateInvoice rt invoice_id prevState formData)) k
           = reported (violations (emailRegex rt) t (form_get formData k))"
proof -
  note m = parse_shape_messages[OF invoice_shape_distinct assms, of "emailRegex rt"
      "invoice_fields formData"]
  show "field_error (fst (createInvoice rt prevState formData)) k
           = reported (violations (emailRegex rt) t (form_get formData k))"
    using field_error_object[OF createInvoice_returned_errors[unfolded CreateInvoice_def], where k = k]
    by (simp add: m invoice_property_any[OF assms])
  show "field_error (fst (updateInvoice rt invoice_id prevState formData)) k
           = reported (violations (emailRegex rt) t (form_get formData k))"
    using field_error_object[OF updateInvoice_returned_errors[unfolded UpdateInvoice_def], where k = k]
    by (simp add: m invoice_property_any[OF assms])
qed

subsection \<open>Registration\<close>

lemma credShape_distinct: "distinct (map fst credShape)"
  by (simp add: credShape_def)

lemma cred_property_any:
  "(k, t) \<in> set credShape \<Longrightarrow> property (cred_fields formData) k = form_get formData k"
  by (auto simp: credShape_def property_def)

lemma is_text_iff: "is_text formData k \<longleftrightarrow> (\<exists>s. formData k = Some (Text s))"
  by (auto simp: is_text_def split: option.splits FormDataEntryValue.splits)

lemma form_get_Str: "form_get formData k = Str s \<longleftrightarrow> formData k = Some (Text s)"
  by (auto simp: form_get_def split: option.splits FormDataEntryValue.splits)

text \<open>The registration form is aborted exactly when an entry is not text.\<close>

lemma cred_parsed:
  "snd (parse_shape e credShape (cred_fields formData)) =
     (if list_all (is_text formData) (map fst credShape)
      then Some (cred_fields formData) else None)"
proof -
  have v: "snd (parse_type e (ZodString custom checks) path (form_get formData k)) =
      (if is_text formData k then Some (form_get formData k) else None)"
    for custom checks path k
    by (cases "form_get formData k") (auto simp: is_text_iff form_get_Str[symmetric])
  show ?thesis
    unfolding credShape_def
    by (simp add: split_beta property_def v del: parse_type.simps)
qed

lemma addUser_cases:
  "addUser rt prevState formData =
     (case safeParse (emailRegex rt) credSchema (cred_fields formData) of
        Inl issues \<Rightarrow> (Return \<lparr>errors = Some (fieldErrors issues), message = None\<rparr>, [])
      | Inr userInput \<Rightarrow>
          (case bcrypt_hash rt (property userInput ''password'') of
             Throw error \<Rightarrow> (Throw error, [])
           | Return hashedPassword \<Rightarrow>
               (case sql rt (INSERT_INTO_users (property userInput ''username'')
                              (property userInput ''email'') hashedPassword) of
                  Inl error \<Rightarrow>
                    (Return \<lparr>errors = None,
                             message = Some (''Failed to insert new user. Database error: '' @ error)\<rparr>,
                     [Sql (INSERT_INTO_users (property userInput ''username'')
                              (property userInput ''email'') hashedPassword)])
                | Inr rows \<Rightarrow>
                    (Throw (NEXT_REDIRECT ''/login''),
                     [Sql (INSERT_INTO_users (property userInput ''username'')
                              (property userInput ''email'') hashedPassword)]))))"
  by (simp add: addUser_def Let_def split: sum.splits completion.splits)

lemma addUser_returned_errors:
  "returned_errors (fst (addUser rt prevState formData))
     = (case safeParse (emailRegex rt) credSchema (cred_fields formData) of
          Inl issues \<Rightarrow> Some (fieldErrors issues)
        | Inr data \<Rightarrow> None)"
  unfolding addUser_cases
  by (simp add: returned_errors_def split: sum.splits completion.splits)

lemma cred_check:
  assumes "list_all (is_text formData) (map fst credShape)"
  shows "strict_equals (property (cred_fields formData) ''password'')
           (property (cred_fields formData) ''confirmPassword'')
         \<longleftrightarrow> formData ''password'' = formData ''confirmPassword''"
proof -
  from assms obtain p c where "formData ''password'' = Some (Text p)"
    and "formData ''confirmPassword'' = Some (Text c)"
    by (auto simp: credShape_def is_text_iff)
  then show ?thesis by (simp add: property_def form_get_def)
qed

lemma cred_issues:
  "fst (parse_schema e credSchema (cred_fields formData)) =
     fst (parse_shape e credShape (cred_fields formData)) @ mismatch formData"
  "snd (parse_schema e credSchema (cred_fields formData)) =
     snd (parse_shape e credShape (cred_fields formData))"
proof -
  obtain issues v where p: "parse_shape e credShape (cred_fields formData) = (issues, v)"
    by (cases "parse_shape e credShape (cred_fields formData)")
  from p have v: "v = (if list_all (is_text formData) (map fst credShape)
      then Some (cred_fields formData) else None)"
    using cred_parsed[of e formData] by simp
  show "fst (parse_schema e credSchema (cred_fields formData)) =
     fst (parse_shape e credShape (cred_fields formData)) @ mismatch formData"
  proof (cases "list_all (is_text formData) (map fst credShape)")
    case True
    with v have "v = Some (cred_fields formData)" by simp
    with p cred_check[OF True] True show ?thesis
      by (simp add: credSchema_def refine_def mismatch_def)
  next
    case False
    with v have "v = None" by simp
    with p False show ?thesis
      by (simp add: credSchema_def refine_def mismatch_def)
  qed
  show "snd (parse_schema e credSchema (cred_fields formData)) =
     snd (parse_shape e credShape (cred_fields formData))"
    using p by (cases v) (simp_all add: credSchema_def refine_def)
qed

lemma cred_safeParse:
  "safeParse e credSchema (cred_fields formData) =
     (if fst (parse_shape e credShape (cred_fields formData)) @ mismatch formData = []
      then Inr (cred_fields formData)
      else Inl (fst (parse_shape e credShape (cred_fields formData)) @ mismatch formData))"
proof (cases "snd (parse_schema e credSchema (cred_fields formData))")
  case None
  then have "snd (parse_shape e credShape (cred_fields formData)) = None"
    by (simp add: cred_issues)
  from parse_shape_aborted_issue[OF this]
  have "fst (parse_schema e credSchema (cred_fields formData)) \<noteq> []"
    by (simp add: cred_issues)
  with None show ?thesis
    by (cases "parse_schema e credSchema (cred_fields formData)")
      (simp add: safeParse_def cred_issues[symmetric])
next
  case (Some v)
  then have "v = cred_fields formData"
    by (simp add: cred_issues cred_parsed split: if_splits)
  with Some show ?thesis
    by (cases "parse_schema e credSchema (cred_fields formData)")
      (simp add: safeParse_def cred_issues[symmetric])
qed

lemma addUser_field_error:
  "field_error (fst (addUser rt prevState formData)) k =
     reported (messages_at k
       (fst (parse_shape (emailRegex rt) credShape (cred_fields formData)) @ mismatch formData))"
  unfolding field_error_def addUser_returned_errors cred_safeParse
  by (simp add: fieldErrors_lookup reported_messages_Nil)

lemma messages_at_mismatch:
  "messages_at k (mismatch formData) =
     (if k = ''confirmPassword''
         \<and> (\<forall>k' \<in> set (map fst credShape). \<exists>s. formData k' = Some (Text s))
         \<and> formData ''password'' \<noteq> formData ''confirmPassword''
      then [''Passwords do not match''] else [])"
  by (auto simp: mismatch_def messages_at_def list_all_iff is_text_iff)

lemma violations_password_rules:
  "violations e (ZodString None password_rules) (Str s) = [] \<longleftrightarrow> satisfies_password_rules s"
  by (auto simp: violations_def password_rules_def satisfies_password_rules_def
      List.map_filter_simps)

text \<open>
  Claim C7, as amended. Validation does not stop at the first field in error:
  for every form, the messages \<open>createInvoice\<close>, \<open>updateInvoice\<close> and \<open>addUser\<close>
  return for a field are exactly the violations of that field's own value,
  whatever the other fields hold, so every violated field is reported, with all
  its messages. For \<^verbatim>\<open>confirmPassword\<close> the mismatch message follows them when
  the two passwords differ and every entry of the registration form is text;
  when an entry is missing or is a file, the mismatch is not checked.
\<close>

theorem validation_collects_violations:
  "(\<forall>k t. (k, t) \<in> set (omit [''id'', ''date''] FormSchema) \<longrightarrow>
       field_error (fst (createInvoice rt prevState formData)) k
         = reported (violations (emailRegex rt) t (form_get formData k))
     \<and> field_error (fst (updateInvoice rt invoice_id prevState formData)) k
         = reported (violations (emailRegex rt) t (form_get formData k)))
   \<and> (\<forall>k t. (k, t) \<in> set credShape \<longrightarrow>
       field_error (fst (addUser rt prevState formData)) k
         = reported (violations (emailRegex rt) t (form_get formData k)
             @ (if k = ''confirmPassword''
                   \<and> (\<forall>k' \<in> set (map fst credShape). \<exists>s. formData k' = Some (Text s))
                   \<and> formData ''password'' \<noteq> formData ''confirmPassword''
                then [''Passwords do not match''] else [])))"
proof -
  have cred: "field_error (fst (addUser rt prevState formData)) k
         = reported (violations (emailRegex rt) t (form_get formData k)
             @ (if k = ''confirmPassword''
                   \<and> (\<forall>k' \<in> set (map fst credShape). \<exists>s. formData k' = Some (Text s))
                   \<and> formData ''password'' \<noteq> formData ''confirmPassword''
                then [''Passwords do not match''] else []))"
    if "(k, t) \<in> set credShape" for k t
    unfolding addUser_field_error messages_at_append
      parse_shape_messages[OF credShape_distinct that] messages_at_mismatch
      cred_property_any[OF that] ..
  from invoice_field_errors cred show ?thesis by blast
qed

theorem validation_collects_violations_witness:
  "field_error (fst (addUser sample_env no_state
      (form_of [(''username'', ''ab''), (''email'', ''ab.acme.test''),
                (''password'', ''Abcdef1!''), (''confirmPassword'', ''abc'')]))) ''username''
     = Some [''Username must be at least 3 characters long'']
   \<and> field_error (fst (addUser sample_env no_state
      (form_of [(''username'', ''ab''), (''email'', ''ab.acme.test''),
                (''password'', ''Abcdef1!''), (''confirmPassword'', ''abc'')]))) ''email''
     = Some [''Invalid email address'']
   \<and> field_error (fst (addUser sample_env no_state
      (form_of [(''username'', ''ab''), (''email'', ''ab.acme.test''),
                (''password'', ''Abcdef1!''), (''confirmPassword'', ''abc'')]))) ''confirmPassword''
     = Some [''Password must be at least 8 characters long'',
             ''Password must contain at least one uppercase letter'',
             ''Password must contain at least one number'',
             ''Password must contain at least one special character'',
             ''Passwords do not match'']
   \<and> field_error (fst (createInvoice sample_env no_state
      (form_of [(''amount'', ''0''), (''status'', ''pending'')]))) ''customerId''
     = Some [''Please select a customer.'']
   \<and> field_error (fst (createInvoice sample_env no_state
      (form_of [(''amount'', ''0''), (''status'', ''pending'')]))) ''amount''
     = Some [''Please enter an amount greater than $0.'']"
proof -
  let ?reg = "form_of [(''username'', ''ab''), (''email'', ''ab.acme.test''),
                (''password'', ''Abcdef1!''), (''confirmPassword'', ''abc'')]"
  let ?inv = "form_of [(''amount'', ''0''), (''status'', ''pending'')]"
  note t = validation_collects_violations[where rt = sample_env and prevState = no_state
      and formData = ?reg]
  note i = validation_collects_violations[where rt = sample_env and prevState = no_state
      and formData = ?inv]
  have ku: "(''username'', ZodString None
         [Min 3 ''Username must be at least 3 characters long'',
          Max 20 ''Username cannot exceed 20 characters'']) \<in> set credShape"
    and ke: "(''email'', ZodString None [Email ''Invalid email address'']) \<in> set credShape"
    and kc: "(''confirmPassword'', ZodString None password_rules) \<in> set credShape"
    by (simp_all add: credShape_def)
  have kid: "(''customerId'', ZodString (Some ''Please select a customer.'') [])
        \<in> set (omit [''id'', ''date''] FormSchema)"
    and ka: "(''amount'', ZodNumber True [Gt (Finite 0) ''Please enter an amount greater than $0.''])
        \<in> set (omit [''id'', ''date''] FormSchema)"
    by (simp_all add: invoice_shape)
  have texts: "\<forall>k' \<in> set (map fst credShape). \<exists>s. ?reg k' = Some (Text s)"
    by (simp add: credShape_def form_of_def)
  have differ: "?reg ''password'' \<noteq> ?reg ''confirmPassword''"
    by (simp add: form_of_def)
  have vu: "violations (emailRegex sample_env) (ZodString None
         [Min 3 ''Username must be at least 3 characters long'',
          Max 20 ''Username cannot exceed 20 characters'']) (form_get ?reg ''username'')
        = [''Username must be at least 3 characters long'']"
    by (simp add: violations_def form_get_def form_of_def List.map_filter_simps)
  have ve: "violations (emailRegex sample_env) (ZodString None [Email ''Invalid email address''])
         (form_get ?reg ''email'') = [''Invalid email address'']"
    by (simp add: violations_def form_get_def form_of_def List.map_filter_simps sample_env_def)
  have vc: "violations (emailRegex sample_env) (ZodString None password_rules)
         (form_get ?reg ''confirmPassword'')
        = [''Password must be at least 8 characters long'',
           ''Password must contain at least one uppercase letter'',
           ''Password must contain at least one number'',
           ''Password must contain at least one special character'']"
    by (simp add: violations_def form_get_def form_of_def List.map_filter_simps
        password_rules_def has_upper_def has_lower_def has_digit_def has_special_def
        upper_case_def lower_case_def digits_def)
  have vid: "violations (emailRegex sample_env) (ZodString (Some ''Please select a customer.'') [])
         (form_get ?inv ''customerId'') = [''Please select a customer.'']"
    by (simp add: violations_def form_get_def form_of_def invalid_type_message_def)
  have va: "violations (emailRegex sample_env)
         (ZodNumber True [Gt (Finite 0) ''Please enter an amount greater than $0.''])
         (form_get ?inv ''amount'') = [''Please enter an amount greater than $0.'']"
    by (simp add: violations_amount validator_simps string_number_simps number_simps)
  from t ku have 1: "field_error (fst (addUser sample_env no_state ?reg)) ''username''
     = Some [''Username must be at least 3 characters long'']"
    by (simp add: vu reported_def)
  from t ke have 2: "field_error (fst (addUser sample_env no_state ?reg)) ''email''
     = Some [''Invalid email address'']"
    by (simp add: ve reported_def)
  from t kc texts differ have 3: "field_error (fst (addUser sample_env no_state ?reg)) ''confirmPassword''
     = Some [''Password must be at least 8 characters long'',
             ''Password must contain at least one uppercase letter'',
             ''Password must contain at least one number'',
             ''Password must contain at least one special character'',
             ''Passwords do not match'']"
    by (simp add: vc reported_def)
  from i kid have 4: "field_error (fst (createInvoice sample_env no_state ?inv)) ''customerId''
     = Some [''Please select a customer.'']"
    by (simp add: vid reported_def)
  from i ka have 5: "field_error (fst (createInvoice sample_env no_state ?inv)) ''amount''
     = Some [''Please enter an amount greater than $0.'']"
    by (simp add: va reported_def)
  from 1 2 3 4 5 show ?thesis by blast
qed

lemmas registration_simps = addUser_def credSchema_def credShape_def refine_def password_rules_def
  safeParse_def property_def form_get_def form_of_def field_error_def returned_errors_def
  List.map_filter_simps invalid_type_message_def
  has_upper_def has_lower_def has_digit_def has_special_def upper_case_def lower_case_def digits_def

text \<open>
  The claim as stated fails: with no \<^verbatim>\<open>email\<close> entry in the form the two
  passwords differ, and the returned field errors hold no mismatch.
\<close>

theorem mismatch_not_collected:
  "form_of [(''username'', ''alice''), (''password'', ''Abcdef1!''),
            (''confirmPassword'', ''Abcdef2!'')] ''password''
     \<noteq> form_of [(''username'', ''alice''), (''password'', ''Abcdef1!''),
            (''confirmPassword'', ''Abcdef2!'')] ''confirmPassword''
   \<and> field_error (fst (addUser sample_env no_state
        (form_of [(''username'', ''alice''), (''password'', ''Abcdef1!''),
                  (''confirmPassword'', ''Abcdef2!'')]))) ''email'' \<noteq> None
   \<and> field_error (fst (addUser sample_env no_state
        (form_of [(''username'', ''alice''), (''password'', ''Abcdef1!''),
                  (''confirmPassword'', ''Abcdef2!'')]))) ''confirmPassword'' = None"
  by (simp add: registration_simps sample_simps)

subsection \<open>Where the mismatch is attached\<close>

text \<open>
  Claim C8, as amended. For every registration form whose four entries are
  text, where the password and its confirmation differ and each satisfies the
  length rule and the four character classes, \<open>addUser\<close> returns a state whose
  field errors hold the mismatch under \<^verbatim>\<open>confirmPassword\<close> and nothing under
  \<^verbatim>\<open>password\<close>; it issues no statement.
\<close>

theorem mismatch_on_confirmPassword:
  assumes "formData ''username'' = Some (Text u)" and "formData ''email'' = Some (Text e)"
    and "formData ''password'' = Some (Text p)" and "formData ''confirmPassword'' = Some (Text c)"
    and "p \<noteq> c"
    and "satisfies_password_rules p" and "satisfies_password_rules c"
  shows "\<exists>m. addUser rt prevState formData = (Return \<lparr>errors = Some m, message = None\<rparr>, [])
           \<and> m ''confirmPassword'' = Some [''Passwords do not match'']
           \<and> m ''password'' = None"
proof -
  let ?issues = "fst (parse_shape (emailRegex rt) credShape (cred_fields formData))
                   @ mismatch formData"
  have texts: "list_all (is_text formData) (map fst credShape)"
    using assms(1-4) by (simp add: credShape_def is_text_def)
  with assms(3-5) have mm: "mismatch formData = [([''confirmPassword''], ''Passwords do not match'')]"
    by (simp add: mismatch_def)
  then have "?issues \<noteq> []" by simp
  then have "safeParse (emailRegex rt) credSchema (cred_fields formData) = Inl ?issues"
    by (simp add: cred_safeParse)
  then have run: "addUser rt prevState formData =
      (Return \<lparr>errors = Some (fieldErrors ?issues), message = None\<rparr>, [])"
    by (simp add: addUser_cases)
  have kp: "(''password'', ZodString None password_rules) \<in> set credShape"
    and kc: "(''confirmPassword'', ZodString None password_rules) \<in> set credShape"
    by (simp_all add: credShape_def)
  have vp: "violations (emailRegex rt) (ZodString None password_rules)
      (property (cred_fields formData) ''password'') = []"
    using assms(3,6) by (simp add: property_def form_get_def violations_password_rules)
  have vc: "violations (emailRegex rt) (ZodString None password_rules)
      (property (cred_fields formData) ''confirmPassword'') = []"
    using assms(4,7) by (simp add: property_def form_get_def violations_password_rules)
  have "fieldErrors ?issues ''confirmPassword'' = Some [''Passwords do not match'']"
    unfolding fieldErrors_lookup messages_at_append
      parse_shape_messages[OF credShape_distinct kc] vc mm
    by (simp add: messages_at_def reported_def)
  moreover have "fieldErrors ?issues ''password'' = None"
    unfolding fieldErrors_lookup messages_at_append
      parse_shape_messages[OF credShape_distinct kp] vp mm
    by (simp add: messages_at_def reported_def)
  ultimately show ?thesis using run by blast
qed

theorem mismatch_on_confirmPassword_witness:
  "satisfies_password_rules ''Abcdef1!'' \<and> satisfies_password_rules ''Abcdef2!''
   \<and> (\<exists>m. addUser sample_env no_state
          (form_of [(''username'', ''alice''), (''email'', ''alice@acme.test''),
                    (''password'', ''Abcdef1!''), (''confirmPassword'', ''Abcdef2!'')])
        = (Return \<lparr>errors = Some m, message = None\<rparr>, [])
        \<and> m ''confirmPassword'' = Some [''Passwords do not match'']
        \<and> m ''password'' = None)"
proof -
  let ?form = "form_of [(''username'', ''alice''), (''email'', ''alice@acme.test''),
                    (''password'', ''Abcdef1!''), (''confirmPassword'', ''Abcdef2!'')]"
  have f: "?form ''username'' = Some (Text ''alice'')" "?form ''email'' = Some (Text ''alice@acme.test'')"
    "?form ''password'' = Some (Text ''Abcdef1!'')" "?form ''confirmPassword'' = Some (Text ''Abcdef2!'')"
    by (simp_all add: form_of_def)
  have d: "''Abcdef1!'' \<noteq> ''Abcdef2!''" by simp
  have s: "satisfies_password_rules ''Abcdef1!''" "satisfies_password_rules ''Abcdef2!''"
    by (simp_all add: satisfies_password_rules_def has_upper_def has_lower_def has_digit_def
        has_special_def upper_case_def lower_case_def digits_def)
  from s mismatch_on_confirmPassword[OF f d s, of sample_env no_state] show ?thesis by blast
qed

text \<open>
  The claim as stated fails: with no \<^verbatim>\<open>username\<close> entry in the form, two
  passwords that differ and satisfy every rule get no mismatch under
  \<^verbatim>\<open>confirmPassword\<close>; the only field in error is \<^verbatim>\<open>username\<close>.
\<close>

theorem mismatch_unattached_without_username:
  "satisfies_password_rules ''Abcdef1!'' \<and> satisfies_password_rules ''Abcdef2!''
   \<and> field_error (fst (addUser sample_env no_state
        (form_of [(''email'', ''alice@acme.test''), (''password'', ''Abcdef1!''),
                  (''confirmPassword'', ''Abcdef2!'')]))) ''username'' \<noteq> None
   \<and> field_error (fst (addUser sample_env no_state
        (form_of [(''email'', ''alice@acme.test''), (''password'', ''Abcdef1!''),
                  (''confirmPassword'', ''Abcdef2!'')]))) ''confirmPassword'' = None
   \<and> field_error (fst (addUser sample_env no_state
        (form_of [(''email'', ''alice@acme.test''), (''password'', ''Abcdef1!''),
                  (''confirmPassword'', ''Abcdef2!'')]))) ''password'' = None"
  by (simp add: registration_simps sample_simps satisfies_password_rules_def)

end
